theory Spec2Isabelle
  imports Complex_Main
begin

section \<open>The one-dimensional flow domain (StFlow.cpp)\<close>

text \<open>
  A shallow embedding of the residual-assembly core of \<^verbatim>\<open>StFlow.cpp\<close>.
  C++ \<^verbatim>\<open>double\<close> values are modelled as exact reals (the algebraic content of the
  formulas; rounding is not modelled). \<^verbatim>\<open>size_t\<close> values are natural numbers, with
  the wrap-around of an unsigned subtraction written out in \<open>size_sub\<close> and that of
  the sums that can reach the largest value written out with \<open>mod\<close>.
  A \<^verbatim>\<open>std::vector\<close> is a list; a raw \<^verbatim>\<open>double*\<close> handed in by the caller is a
  function from offsets to values (the pointer carries no length).
\<close>

subsection \<open>Errors\<close>

text \<open>
  \<^verbatim>\<open>CanteraError\<close> and \<^verbatim>\<open>NotImplementedError\<close> carry the name of the throwing
  procedure and a message. \<open>LengthError\<close> stands for the \<^verbatim>\<open>std::length_error\<close>
  of \<^verbatim>\<open>std::vector::resize\<close> when asked for more than \<^verbatim>\<open>max_size()\<close> elements.
\<close>

datatype error =
    CanteraError string string
  | NotImplementedError string string
  | LengthError

fun is_CanteraError :: "error + 'a \<Rightarrow> bool" where
  "is_CanteraError (Inl (CanteraError p m)) = True"
| "is_CanteraError r = False"

fun is_NotImplementedError :: "error + 'a \<Rightarrow> bool" where
  "is_NotImplementedError (Inl (NotImplementedError p m)) = True"
| "is_NotImplementedError r = False"

subsection \<open>Unsigned arithmetic and loops\<close>

text \<open>\<^verbatim>\<open>npos\<close> is the largest \<^verbatim>\<open>size_t\<close>; an optional point index is \<open>None\<close> for it.\<close>

definition size_max :: nat where
  "size_max = 2 ^ 64 - 1"

definition size_sub :: "nat \<Rightarrow> nat \<Rightarrow> nat" where
  "size_sub a b = (if b \<le> a then a - b else a + 2 ^ 64 - b)"

text \<open>\<^verbatim>\<open>for (size_t j = lo; j < hi; j++) body\<close>, and the inclusive form with \<^verbatim>\<open>j <= hi\<close>.\<close>

definition for_lt :: "nat \<Rightarrow> nat \<Rightarrow> (nat \<Rightarrow> 's \<Rightarrow> 's) \<Rightarrow> 's \<Rightarrow> 's" where
  "for_lt lo hi body s = fold body [lo..<hi] s"

definition for_le :: "nat \<Rightarrow> nat \<Rightarrow> (nat \<Rightarrow> 's \<Rightarrow> 's) \<Rightarrow> 's \<Rightarrow> 's" where
  "for_le lo hi body s = fold body [lo..<Suc hi] s"

text \<open>\<^verbatim>\<open>std::vector::resize(n, v)\<close>: truncate, or pad with \<open>v\<close>.\<close>

definition vresize :: "nat \<Rightarrow> 'a \<Rightarrow> 'a list \<Rightarrow> 'a list" where
  "vresize n v xs = take n xs @ replicate (n - length xs) v"

subsection \<open>Component offsets\<close>

text \<open>
  Modelled from the spec: the enumeration \<^verbatim>\<open>c_offset_U .. c_offset_Y\<close> is declared in
  the header \<^verbatim>\<open>StFlow.h\<close>, which is not among the sources. The spec gives the order
  velocity, spread rate, temperature, lambda, electric field, then the species block at
  the fixed offset 5.
\<close>

definition c_offset_U :: nat where "c_offset_U = 0"
definition c_offset_V :: nat where "c_offset_V = 1"
definition c_offset_T :: nat where "c_offset_T = 2"
definition c_offset_L :: nat where "c_offset_L = 3"
definition c_offset_E :: nat where "c_offset_E = 4"
definition c_offset_Y :: nat where "c_offset_Y = 5"

lemmas c_offset_defs =
  c_offset_U_def c_offset_V_def c_offset_T_def c_offset_L_def c_offset_E_def c_offset_Y_def

subsection \<open>Two-dimensional arrays\<close>

text \<open>
  Modelled from the spec: \<^verbatim>\<open>Array2D\<close> (header \<^verbatim>\<open>Array.h\<close>, not among the sources) stores
  a matrix column by column; entry \<open>(i, j)\<close> is at \<open>nrows * j + i\<close> of the data vector,
  and \<^verbatim>\<open>resize(n, m, v)\<close> sets the shape and resizes the data vector to \<open>n * m\<close>.
\<close>

record array2d =
  nrows :: nat
  ncols :: nat
  adata :: "real list"

definition a2_get :: "array2d \<Rightarrow> nat \<Rightarrow> nat \<Rightarrow> real" where
  "a2_get a i j = adata a ! (nrows a * j + i)"

definition a2_set :: "array2d \<Rightarrow> nat \<Rightarrow> nat \<Rightarrow> real \<Rightarrow> array2d" where
  "a2_set a i j v = a\<lparr>adata := (adata a)[nrows a * j + i := v]\<rparr>"

definition a2_resize :: "nat \<Rightarrow> nat \<Rightarrow> real \<Rightarrow> array2d \<Rightarrow> array2d" where
  "a2_resize n m v a = \<lparr>nrows = n, ncols = m, adata = vresize (n * m) v (adata a)\<rparr>"

subsection \<open>The domain object\<close>

text \<open>
  The fields of the base class \<^verbatim>\<open>Domain1D\<close> that the flow domain uses: the number of
  components and of points, the offset \<open>m_iloc\<close> of the domain in the global solution
  vector (\<^verbatim>\<open>loc()\<close>), the global index \<open>m_jstart\<close> of its first point, the grid, the
  solution of the previous time step, the refiner's per-component activity flags, and
  the signal raised by \<^verbatim>\<open>needJacUpdate()\<close>.
\<close>

record domain1d =
  m_nv :: nat
  m_points :: nat
  m_iloc :: nat
  m_jstart :: nat
  m_z :: "real list"
  m_slast :: "real list"
  refiner_active :: "nat \<Rightarrow> bool"
  jac_update_needed :: bool

record stflow = domain1d +
  m_nsp :: nat
  speciesNames :: "string list"
  m_press :: real
  m_wt :: "real list"
  m_dz :: "real list"
  m_rho :: "real list"
  m_wtm :: "real list"
  m_cp :: "real list"
  m_visc :: "real list"
  m_tcon :: "real list"
  m_diff :: "real list"
  m_multidiff :: "real list"
  m_dthermal :: array2d
  m_flux :: array2d
  m_wdot :: array2d
  m_hk :: array2d
  m_dhk_dz :: array2d
  m_do_energy :: "bool list"
  m_do_soret :: bool
  m_do_multicomponent :: bool
  m_do_radiation :: bool
  m_dovisc :: bool
  m_force_full_update :: bool
  m_usesLambda :: bool
  m_isFree :: bool
  m_qdotRadiation :: "real list"
  m_fixedtemp :: "real list"
  m_zfix :: "real list"
  m_tfix :: "real list"
  m_kExcessLeft :: nat
  m_kExcessRight :: nat
  m_kRadiating :: "nat option list"
  m_epsilon_left :: real
  m_epsilon_right :: real
  m_zfixed :: real
  m_tfixed :: real

text \<open>
  Modelled from the spec: the accessors of \<^verbatim>\<open>Domain1D.h\<close> and \<^verbatim>\<open>StFlow.h\<close> (headers not
  among the sources). The layout \<open>index n j = m_nv * j + n\<close> is the one \<^verbatim>\<open>setGas\<close>
  spells out (\<^verbatim>\<open>x + m_nv*j + c_offset_Y\<close>); the mass flux \<open>rho_u\<close> is density times
  velocity; the mole fraction \<open>X\<close> is the mass fraction scaled by the ratio of the mean
  molecular weight to the species' molecular weight.
\<close>

definition index :: "'a stflow_scheme \<Rightarrow> nat \<Rightarrow> nat \<Rightarrow> nat" where
  "index d n j = m_nv d * j + n"

definition z :: "'a stflow_scheme \<Rightarrow> nat \<Rightarrow> real" where
  "z d j = m_z d ! j"

definition T :: "'a stflow_scheme \<Rightarrow> (nat \<Rightarrow> real) \<Rightarrow> nat \<Rightarrow> real" where
  "T d x j = x (index d c_offset_T j)"

definition u :: "'a stflow_scheme \<Rightarrow> (nat \<Rightarrow> real) \<Rightarrow> nat \<Rightarrow> real" where
  "u d x j = x (index d c_offset_U j)"

definition rho_u :: "'a stflow_scheme \<Rightarrow> (nat \<Rightarrow> real) \<Rightarrow> nat \<Rightarrow> real" where
  "rho_u d x j = m_rho d ! j * x (index d c_offset_U j)"


definition lambda :: "'a stflow_scheme \<Rightarrow> (nat \<Rightarrow> real) \<Rightarrow> nat \<Rightarrow> real" where
  "lambda d x j = x (index d c_offset_L j)"

definition Y :: "'a stflow_scheme \<Rightarrow> (nat \<Rightarrow> real) \<Rightarrow> nat \<Rightarrow> nat \<Rightarrow> real" where
  "Y d x k j = x (index d (c_offset_Y + k) j)"

definition X :: "'a stflow_scheme \<Rightarrow> (nat \<Rightarrow> real) \<Rightarrow> nat \<Rightarrow> nat \<Rightarrow> real" where
  "X d x k j = m_wtm d ! j * Y d x k j / m_wt d ! k"

definition prevSoln :: "'a stflow_scheme \<Rightarrow> nat \<Rightarrow> nat \<Rightarrow> real" where
  "prevSoln d n j = m_slast d ! (m_nv d * j + n)"

definition T_fixed :: "'a stflow_scheme \<Rightarrow> nat \<Rightarrow> real" where
  "T_fixed d j = m_fixedtemp d ! j"

definition domainType :: "'a stflow_scheme \<Rightarrow> string" where
  "domainType d =
     (if m_isFree d then ''free-flow''
      else if m_usesLambda d then ''axisymmetric-flow''
      else ''unstrained-flow'')"

subsection \<open>Component names\<close>

definition componentName :: "'a stflow_scheme \<Rightarrow> nat \<Rightarrow> string" where
  "componentName d n =
     (if n = c_offset_U then ''velocity''
      else if n = c_offset_V then ''spread_rate''
      else if n = c_offset_T then ''T''
      else if n = c_offset_L then ''lambda''
      else if n = c_offset_E then ''eField''
      else if c_offset_Y \<le> n \<and> n < c_offset_Y + m_nsp d
        then speciesNames d ! (n - c_offset_Y)
      else ''<unknown>'')"

text \<open>
  The search loop of \<^verbatim>\<open>componentIndex\<close> returns the first species component whose name
  matches; falling out of the loop throws.
\<close>

definition componentIndex :: "'a stflow_scheme \<Rightarrow> string \<Rightarrow> error + nat" where
  "componentIndex d name =
     (if name = ''velocity'' then Inr c_offset_U
      else if name = ''spread_rate'' then Inr c_offset_V
      else if name = ''T'' then Inr c_offset_T
      else if name = ''lambda'' then Inr c_offset_L
      else if name = ''eField'' then Inr c_offset_E
      else (case find (\<lambda>n. componentName d n = name)
                      [c_offset_Y..<m_nsp d + c_offset_Y] of
              Some n \<Rightarrow> Inr n
            | None \<Rightarrow> Inl (CanteraError ''StFlow1D::componentIndex''
                                        (''no component named '' @ name))))"

definition fixed_names :: "string set" where
  "fixed_names = {''velocity'', ''spread_rate'', ''T'', ''lambda'', ''eField''}"

subsection \<open>The electric-field placeholder\<close>

definition evalElectricField ::
  "'a stflow_scheme \<Rightarrow> (nat \<Rightarrow> real) \<Rightarrow> (nat \<Rightarrow> real) \<Rightarrow> nat \<Rightarrow> nat \<Rightarrow> (nat \<Rightarrow> real)" where
  "evalElectricField d x rsd jmin jmax =
     for_le jmin jmax
       (\<lambda>j r. r(index d c_offset_E j := x (index d c_offset_E j))) rsd"

text \<open>\<^verbatim>\<open>type()\<close> of the base class reports the domain type.\<close>

definition not_used_msg :: "'a stflow_scheme \<Rightarrow> string" where
  "not_used_msg d = ''Not used by '' @ [CHR 0x27] @ domainType d @ [CHR 0x27] @ '' objects.''"

definition solveElectricField :: "'a stflow_scheme \<Rightarrow> nat option \<Rightarrow> error + 'a stflow_scheme" where
  "solveElectricField d j =
     Inl (NotImplementedError ''StFlow::solveElectricField'' (not_used_msg d))"

definition fixElectricField :: "'a stflow_scheme \<Rightarrow> nat option \<Rightarrow> error + 'a stflow_scheme" where
  "fixElectricField d j =
     Inl (NotImplementedError ''StFlow::fixElectricField'' (not_used_msg d))"

definition doElectricField :: "'a stflow_scheme \<Rightarrow> nat option \<Rightarrow> error + bool" where
  "doElectricField d j =
     Inl (NotImplementedError ''StFlow::doElectricField'' (not_used_msg d))"

subsection \<open>Enabling the energy equation\<close>

text \<open>
  \<^verbatim>\<open>solveEnergyEqn(j)\<close>: the point \<open>j\<close>, or all points for \<^verbatim>\<open>npos\<close> (\<open>None\<close>). The
  refiner's flags live in \<^verbatim>\<open>m_refiner\<close>, and \<^verbatim>\<open>needJacUpdate()\<close> of the base class
  is recorded in \<open>jac_update_needed\<close>.
\<close>

definition setActive :: "nat \<Rightarrow> bool \<Rightarrow> 'a stflow_scheme \<Rightarrow> 'a stflow_scheme" where
  "setActive n b d = d\<lparr>refiner_active := (refiner_active d)(n := b)\<rparr>"

definition needJacUpdate :: "'a stflow_scheme \<Rightarrow> 'a stflow_scheme" where
  "needJacUpdate d = d\<lparr>jac_update_needed := True\<rparr>"

definition set_energy_flag ::
  "bool \<Rightarrow> nat \<Rightarrow> bool \<times> 'a stflow_scheme \<Rightarrow> bool \<times> 'a stflow_scheme" where
  "set_energy_flag b i cd =
     (let changed = fst cd; d = snd cd in
        ((if m_do_energy d ! i \<noteq> b then True else changed),
         d\<lparr>m_do_energy := (m_do_energy d)[i := b]\<rparr>))"

definition solveEnergyEqn :: "nat option \<Rightarrow> 'a stflow_scheme \<Rightarrow> 'a stflow_scheme" where
  "solveEnergyEqn j d =
     (let cd = (case j of
                  None \<Rightarrow> for_lt 0 (m_points d) (set_energy_flag True) (False, d)
                | Some j \<Rightarrow> set_energy_flag True j (False, d));
          changed = fst cd;
          d1 = setActive c_offset_T True
                 (setActive c_offset_V True (setActive c_offset_U True (snd cd)))
      in if changed then needJacUpdate d1 else d1)"

definition fixTemperature :: "nat option \<Rightarrow> 'a stflow_scheme \<Rightarrow> 'a stflow_scheme" where
  "fixTemperature j d =
     (let cd = (case j of
                  None \<Rightarrow> for_lt 0 (m_points d) (set_energy_flag False) (False, d)
                | Some j \<Rightarrow> set_energy_flag False j (False, d));
          changed = fst cd;
          d1 = setActive c_offset_T False
                 (setActive c_offset_V False (setActive c_offset_U False (snd cd)))
      in if changed then needJacUpdate d1 else d1)"

subsection \<open>Finalisation\<close>

text \<open>
  \<^verbatim>\<open>_finalize\<close> (an Isabelle name cannot start with an underscore). The interpolation
  routine \<^verbatim>\<open>linearInterp\<close> belongs to the numerics library and is a parameter \<open>interp\<close>.
  \<open>Undef\<close> is the sentinel of \<^verbatim>\<open>ct_defs.h\<close>.
\<close>

definition Undef :: real where
  "Undef = - (9991234 / 10000)"

definition finalize_fixedtemp ::
  "(real \<Rightarrow> real list \<Rightarrow> real list \<Rightarrow> real) \<Rightarrow> (nat \<Rightarrow> real) \<Rightarrow> bool \<Rightarrow> nat
     \<Rightarrow> nat \<Rightarrow> 'a stflow_scheme \<Rightarrow> 'a stflow_scheme" where
  "finalize_fixedtemp interp x e nz j d =
     (if e \<or> nz = 0 then d\<lparr>m_fixedtemp := (m_fixedtemp d)[j := T d x j]\<rparr>
      else
        (let zz = (z d j - z d 0) / (z d (size_sub (m_points d) 1) - z d 0);
             tt = interp zz (m_zfix d) (m_tfix d)
         in d\<lparr>m_fixedtemp := (m_fixedtemp d)[j := tt]\<rparr>))"

definition finalize_fixed_point :: "(nat \<Rightarrow> real) \<Rightarrow> 'a stflow_scheme \<Rightarrow> 'a stflow_scheme" where
  "finalize_fixed_point x d =
     (if m_isFree d \<and> m_tfixed d \<noteq> Undef then
        (if list_ex (\<lambda>j. z d j = m_zfixed d) [0..<m_points d] then d
         else
           (case find (\<lambda>j. (T d x j - m_tfixed d) * (T d x (j + 1) - m_tfixed d) \<le> 0)
                      [0..<size_sub (m_points d) 1] of
              Some j \<Rightarrow> d\<lparr>m_tfixed := T d x (j + 1), m_zfixed := z d (j + 1)\<rparr>
            | None \<Rightarrow> d))
      else d)"

definition finalize ::
  "(real \<Rightarrow> real list \<Rightarrow> real list \<Rightarrow> real) \<Rightarrow> (nat \<Rightarrow> real) \<Rightarrow> 'a stflow_scheme
     \<Rightarrow> error + 'a stflow_scheme" where
  "finalize interp x d =
     (if \<not> m_do_multicomponent d \<and> m_do_soret d then
        Inl (CanteraError ''StFlow::_finalize''
          (''Thermal diffusion (the Soret effect) is enabled, and requires ''
             @ ''using a multicomponent transport model.''))
      else
        (let nz = length (m_zfix d);
             e = m_do_energy d ! 0;
             d1 = for_lt 0 (m_points d) (finalize_fixedtemp interp x e nz) d;
             d2 = (if e then solveEnergyEqn None d1 else d1)
         in Inr (finalize_fixed_point x d2)))"

subsection \<open>Resizing and the grid\<close>

text \<open>
  Modelled from the spec: \<^verbatim>\<open>Domain1D::resize\<close> (in \<^verbatim>\<open>Domain1D.cpp\<close>, not among the
  sources) records the component and point counts, resizes the stored previous solution
  and the grid, and makes a fresh refiner (every component active) when the component
  count changes.
\<close>

definition Domain1D_resize :: "nat \<Rightarrow> nat \<Rightarrow> 'a stflow_scheme \<Rightarrow> 'a stflow_scheme" where
  "Domain1D_resize nv np d =
     d\<lparr>refiner_active := (if nv \<noteq> m_nv d then (\<lambda>_. True) else refiner_active d),
       m_nv := nv,
       m_slast := vresize (nv * np) 0 (m_slast d),
       m_points := np,
       m_z := vresize np 0 (m_z d)\<rparr>"

text \<open>
  \<^verbatim>\<open>StFlow::resize\<close>. With no points, \<^verbatim>\<open>m_points - 1\<close> wraps around to the largest
  \<^verbatim>\<open>size_t\<close> and the request exceeds what a vector can hold: the resize of
  \<open>m_dhk_dz\<close> (when there are species; \<^verbatim>\<open>Array2D::resize\<close> has set the shape by then) or
  else that of \<open>m_dz\<close> throws \<^verbatim>\<open>std::length_error\<close>. The result is the exception, if
  any, and the domain as the call leaves it.
\<close>

definition resize_head :: "nat \<Rightarrow> nat \<Rightarrow> 'a stflow_scheme \<Rightarrow> 'a stflow_scheme" where
  "resize_head ncomponents points d0 =
     (let d = Domain1D_resize ncomponents points d0;
          np = m_points d; n = m_nsp d;
          d = d\<lparr>m_rho := vresize np 0 (m_rho d),
                m_wtm := vresize np 0 (m_wtm d),
                m_cp := vresize np 0 (m_cp d),
                m_visc := vresize np 0 (m_visc d),
                m_tcon := vresize np 0 (m_tcon d),
                m_diff := vresize (n * np) 0 (m_diff d)\<rparr>;
          d = (if m_do_multicomponent d
               then d\<lparr>m_multidiff := vresize (n * n * np) 0 (m_multidiff d),
                      m_dthermal := a2_resize n np 0 (m_dthermal d)\<rparr>
               else d)
      in d\<lparr>m_flux := a2_resize n np 0 (m_flux d),
           m_wdot := a2_resize n np 0 (m_wdot d),
           m_hk := a2_resize n np 0 (m_hk d)\<rparr>)"

definition resize :: "nat \<Rightarrow> nat \<Rightarrow> 'a stflow_scheme \<Rightarrow> error option \<times> 'a stflow_scheme" where
  "resize ncomponents points d0 =
     (let d = resize_head ncomponents points d0;
          np = m_points d; n = m_nsp d
      in if np = 0 \<and> 0 < n then
           (Some LengthError,
            d\<lparr>m_dhk_dz := (m_dhk_dz d)\<lparr>nrows := n, ncols := size_sub np 1\<rparr>\<rparr>)
         else
           (let d = d\<lparr>m_dhk_dz := a2_resize n (size_sub np 1) 0 (m_dhk_dz d),
                      m_do_energy := vresize np False (m_do_energy d),
                      m_qdotRadiation := vresize np 0 (m_qdotRadiation d),
                      m_fixedtemp := vresize np 0 (m_fixedtemp d)\<rparr>
            in if np = 0 then (Some LengthError, d)
               else (None, d\<lparr>m_dz := vresize (size_sub np 1) 0 (m_dz d),
                              m_z := vresize np 0 (m_z d)\<rparr>)))"

text \<open>
  The loop of \<^verbatim>\<open>setupGrid\<close> over \<open>j = 1, ..., m_points - 1\<close>: the check of the incoming
  coordinates comes first in each round, and the throw leaves the loop.
\<close>

function setupGrid_loop ::
  "real list \<Rightarrow> nat \<Rightarrow> 'a stflow_scheme \<Rightarrow> error option \<times> 'a stflow_scheme" where
  "setupGrid_loop zs j d =
     (if j < m_points d then
        (if zs ! j \<le> zs ! (j - 1) then
           (Some (CanteraError ''StFlow::setupGrid''
                    ''grid points must be monotonically increasing''), d)
         else
           (let mz = (m_z d)[j := zs ! j]
            in setupGrid_loop zs (Suc j)
                 (d\<lparr>m_z := mz, m_dz := (m_dz d)[j - 1 := mz ! j - mz ! (j - 1)]\<rparr>)))
      else (None, d))"
  by pat_completeness auto
termination
  by (relation "measure (\<lambda>(zs, j, d). m_points d - j)") auto

text \<open>\<^verbatim>\<open>setupGrid(n, z)\<close>; the coordinate array is the list \<open>zs\<close> and \<open>n\<close> its length.\<close>

definition setupGrid :: "real list \<Rightarrow> 'a stflow_scheme \<Rightarrow> error option \<times> 'a stflow_scheme" where
  "setupGrid zs d =
     (case resize (m_nv d) (length zs) d of
        (Some e, d1) \<Rightarrow> (Some e, d1)
      | (None, d1) \<Rightarrow> setupGrid_loop zs 1 (d1\<lparr>m_z := (m_z d1)[0 := zs ! 0]\<rparr>))"

text \<open>A grid is strictly increasing when each coordinate exceeds the one before it.\<close>

definition strictly_increasing :: "real list \<Rightarrow> bool" where
  "strictly_increasing zs = (\<forall>j \<in> {1..<length zs}. zs ! (j - 1) < zs ! j)"

subsection \<open>The thermodynamic, kinetic and transport collaborators\<close>

text \<open>
  The phase object holds a state (temperature, mass fractions, pressure) that \<^verbatim>\<open>setGas\<close>
  and \<^verbatim>\<open>setGasAtMidpoint\<close> set before every query. The collaborators are external: what
  they compute from that state is a parameter \<open>cm\<close> of the model. Vector-valued queries
  give one value per species index, and the multicomponent query gives the entry
  \<open>(i, j)\<close> of the diffusion matrix.
\<close>

record gas_state =
  gas_T :: real
  gas_Y :: "real list"
  gas_P :: real


definition setGas :: "'a stflow_scheme \<Rightarrow> (nat \<Rightarrow> real) \<Rightarrow> nat \<Rightarrow> gas_state" where
  "setGas d x j =
     \<lparr>gas_T = T d x j,
      gas_Y = map (\<lambda>k. x (m_nv d * j + c_offset_Y + k)) [0..<m_nsp d],
      gas_P = m_press d\<rparr>"

definition setGasAtMidpoint :: "'a stflow_scheme \<Rightarrow> (nat \<Rightarrow> real) \<Rightarrow> nat \<Rightarrow> gas_state" where
  "setGasAtMidpoint d x j =
     \<lparr>gas_T = 0.5 * (T d x j + T d x (j + 1)),
      gas_Y = map (\<lambda>k. 0.5 * (x (m_nv d * j + c_offset_Y + k)
                                + x (m_nv d * (j + 1) + c_offset_Y + k))) [0..<m_nsp d],
      gas_P = m_press d\<rparr>"


subsection \<open>Refreshing the property caches\<close>



text \<open>
  Modelled from the spec: \<^verbatim>\<open>mindex(k, j, m) = m*m_nsp*m_nsp + m_nsp*j + k\<close> is an inline
  member of \<^verbatim>\<open>StFlow.h\<close>; \<^verbatim>\<open>getMultiDiffCoeffs(ld, d)\<close> stores the matrix column by
  column with leading dimension \<open>ld\<close>.
\<close>

definition mindex :: "'a stflow_scheme \<Rightarrow> nat \<Rightarrow> nat \<Rightarrow> nat \<Rightarrow> nat" where
  "mindex d k j m = m * m_nsp d * m_nsp d + m_nsp d * j + k"




subsection \<open>Diffusive fluxes\<close>

text \<open>
  The multicomponent flux of species \<open>k\<close> on interval \<open>j\<close>: the inner loop accumulates
  \<open>sum\<close> over the species \<open>m\<close>.
\<close>

definition multi_flux_point :: "'a stflow_scheme \<Rightarrow> (nat \<Rightarrow> real) \<Rightarrow> nat \<Rightarrow> nat \<Rightarrow> array2d \<Rightarrow> array2d" where
  "multi_flux_point d x j k fl =
     (let dz = z d (j + 1) - z d j;
          sum = for_lt 0 (m_nsp d)
                  (\<lambda>m s. s + m_wt d ! m * m_multidiff d ! (mindex d k m j)
                               * (X d x m (j + 1) - X d x m j)) 0
      in a2_set fl k j (sum * m_diff d ! (k + j * m_nsp d) / dz))"

text \<open>
  The mixture-averaged flux on interval \<open>j\<close>: the first loop stores the uncorrected
  fluxes and accumulates minus their sum, the second adds the correction \<open>sum * Y\<close>.
\<close>

fun mix_flux_first ::
  "'a stflow_scheme \<Rightarrow> (nat \<Rightarrow> real) \<Rightarrow> nat \<Rightarrow> real \<Rightarrow> nat \<Rightarrow> real \<times> array2d \<Rightarrow> real \<times> array2d" where
  "mix_flux_first d x j dz k (s, fl) =
     (let fl = a2_set fl k j (m_diff d ! (k + m_nsp d * j));
          fl = a2_set fl k j (a2_get fl k j * ((X d x k j - X d x k (j + 1)) / dz))
      in (s - a2_get fl k j, fl))"

definition mix_flux_point :: "'a stflow_scheme \<Rightarrow> (nat \<Rightarrow> real) \<Rightarrow> nat \<Rightarrow> array2d \<Rightarrow> array2d" where
  "mix_flux_point d x j fl =
     (let dz = z d (j + 1) - z d j;
          sf = for_lt 0 (m_nsp d) (mix_flux_first d x j dz) (0, fl);
          sum = fst sf
      in for_lt 0 (m_nsp d) (\<lambda>k fl. a2_set fl k j (a2_get fl k j + sum * Y d x k j)) (snd sf))"

definition soret_flux_point :: "'a stflow_scheme \<Rightarrow> (nat \<Rightarrow> real) \<Rightarrow> nat \<Rightarrow> array2d \<Rightarrow> array2d" where
  "soret_flux_point d x m fl =
     (let gradlogT = 2.0 * (T d x (m + 1) - T d x m)
                       / ((T d x (m + 1) + T d x m) * (z d (m + 1) - z d m))
      in for_lt 0 (m_nsp d)
           (\<lambda>k fl. a2_set fl k m (a2_get fl k m - a2_get (m_dthermal d) k m * gradlogT)) fl)"

definition updateDiffFluxes ::
  "(nat \<Rightarrow> real) \<Rightarrow> nat \<Rightarrow> nat \<Rightarrow> 'a stflow_scheme \<Rightarrow> 'a stflow_scheme" where
  "updateDiffFluxes x j0 j1 d =
     (let fl = (if m_do_multicomponent d
                then for_lt j0 j1 (\<lambda>j. for_lt 0 (m_nsp d) (multi_flux_point d x j)) (m_flux d)
                else for_lt j0 j1 (mix_flux_point d x) (m_flux d));
          fl = (if m_do_soret d then for_lt j0 j1 (soret_flux_point d x) fl else fl)
      in d\<lparr>m_flux := fl\<rparr>)"



subsection \<open>Radiation\<close>

text \<open>
  \<^verbatim>\<open>OneAtm\<close> and \<^verbatim>\<open>StefanBoltz\<close> are constants of \<^verbatim>\<open>ct_defs.h\<close>; the polynomial
  coefficients are those of the source. \<^verbatim>\<open>pow\<close> with a whole exponent is a power.
  The two boundary terms are computed once, before the loop over the points; the loss
  of point \<open>j\<close> is the value that the loop body stores at \<open>m_qdotRadiation[j]\<close>.
\<close>

definition OneAtm :: real where
  "OneAtm = 101325"

definition StefanBoltz :: real where
  "StefanBoltz = 5.670374419 / 10 ^ 8"

definition c_H2O :: "real list" where
  "c_H2O = [- 0.23093, - 1.12390, 9.41530, - 2.99880, 0.51382, - (1.86840 / 10 ^ 5)]"

definition c_CO2 :: "real list" where
  "c_CO2 = [18.741, - 121.310, 273.500, - 194.050, 56.310, - 5.8169]"

definition planck_poly :: "real list \<Rightarrow> real \<Rightarrow> real" where
  "planck_poly c t = for_le 0 5 (\<lambda>n s. s + c ! n * (1000 / t) ^ n) 0"

definition radiative_heat_loss ::
  "'a stflow_scheme \<Rightarrow> (nat \<Rightarrow> real) \<Rightarrow> real \<Rightarrow> real \<Rightarrow> nat \<Rightarrow> real" where
  "radiative_heat_loss d x boundary_Rad_left boundary_Rad_right j =
     (let k_P_ref = 1.0 * OneAtm;
          k_P = 0;
          k_P = (case m_kRadiating d ! 1 of
                   None \<Rightarrow> k_P
                 | Some kr \<Rightarrow>
                     (let k_P_H2O = planck_poly c_H2O (T d x j);
                          k_P_H2O = k_P_H2O / k_P_ref
                      in k_P + m_press d * X d x kr j * k_P_H2O));
          k_P = (case m_kRadiating d ! 0 of
                   None \<Rightarrow> k_P
                 | Some kr \<Rightarrow>
                     (let k_P_CO2 = planck_poly c_CO2 (T d x j);
                          k_P_CO2 = k_P_CO2 / k_P_ref
                      in k_P + m_press d * X d x kr j * k_P_CO2))
      in 2 * k_P * (2 * StefanBoltz * (T d x j) ^ 4 - boundary_Rad_left - boundary_Rad_right))"

definition computeRadiation_point ::
  "'a stflow_scheme \<Rightarrow> (nat \<Rightarrow> real) \<Rightarrow> real \<Rightarrow> real \<Rightarrow> nat \<Rightarrow> real list \<Rightarrow> real list" where
  "computeRadiation_point d x boundary_Rad_left boundary_Rad_right j q =
     q[j := radiative_heat_loss d x boundary_Rad_left boundary_Rad_right j]"

definition boundary_Rad_left :: "'a stflow_scheme \<Rightarrow> (nat \<Rightarrow> real) \<Rightarrow> real" where
  "boundary_Rad_left d x = m_epsilon_left d * StefanBoltz * (T d x 0) ^ 4"

definition boundary_Rad_right :: "'a stflow_scheme \<Rightarrow> (nat \<Rightarrow> real) \<Rightarrow> real" where
  "boundary_Rad_right d x =
     m_epsilon_right d * StefanBoltz * (T d x (size_sub (m_points d) 1)) ^ 4"

definition computeRadiation ::
  "(nat \<Rightarrow> real) \<Rightarrow> nat \<Rightarrow> nat \<Rightarrow> 'a stflow_scheme \<Rightarrow> 'a stflow_scheme" where
  "computeRadiation x jmin jmax d =
     d\<lparr>m_qdotRadiation :=
         for_lt jmin jmax
           (computeRadiation_point d x (boundary_Rad_left d x) (boundary_Rad_right d x))
           (m_qdotRadiation d)\<rparr>"

subsection \<open>Difference quotients\<close>


definition dYdz :: "'a stflow_scheme \<Rightarrow> (nat \<Rightarrow> real) \<Rightarrow> nat \<Rightarrow> nat \<Rightarrow> real" where
  "dYdz d x k j =
     (let jloc = (if u d x j > 0 then j else j + 1)
      in (Y d x k jloc - Y d x k (jloc - 1)) / m_dz d ! (jloc - 1))"

definition dTdz :: "'a stflow_scheme \<Rightarrow> (nat \<Rightarrow> real) \<Rightarrow> nat \<Rightarrow> real" where
  "dTdz d x j =
     (let jloc = (if u d x j > 0 then j else j + 1)
      in (T d x jloc - T d x (jloc - 1)) / m_dz d ! (jloc - 1))"


definition divHeatFlux :: "'a stflow_scheme \<Rightarrow> (nat \<Rightarrow> real) \<Rightarrow> nat \<Rightarrow> real" where
  "divHeatFlux d x j =
     (let c1 = m_tcon d ! (j - 1) * (T d x j - T d x (j - 1));
          c2 = m_tcon d ! j * (T d x (j + 1) - T d x j)
      in - 2.0 * (c2 / (z d (j + 1) - z d j) - c1 / (z d j - z d (j - 1)))
           / (z d (j + 1) - z d (j - 1)))"

subsection \<open>The equation assemblers\<close>

text \<open>
  Each assembler writes into the residual buffer and the classification buffer
  (\<open>diag\<close>: 0 algebraic, 1 differential) of the caller. The loops run over the interior
  points \<open>j0, ..., j1\<close> of the window.
\<close>

type_synonym buffers = "(nat \<Rightarrow> real) \<times> (nat \<Rightarrow> int)"

definition interior_lo :: "nat \<Rightarrow> nat" where
  "interior_lo jmin = max jmin 1"

definition interior_hi :: "'a stflow_scheme \<Rightarrow> nat \<Rightarrow> nat" where
  "interior_hi d jmax = min jmax (size_sub (m_points d) 2)"















text \<open>
  \<^verbatim>\<open>grad_hk\<close> stores the upwinded enthalpy gradients of point \<open>j\<close>, which the energy
  residual of the same point then reads.
\<close>

definition grad_hk :: "(nat \<Rightarrow> real) \<Rightarrow> nat \<Rightarrow> 'a stflow_scheme \<Rightarrow> 'a stflow_scheme" where
  "grad_hk x j d =
     d\<lparr>m_dhk_dz := for_lt 0 (m_nsp d)
         (\<lambda>k a. if u d x j > 0
                 then a2_set a k j ((a2_get (m_hk d) k j - a2_get (m_hk d) k (j - 1))
                                      / m_dz d ! (j - 1))
                 else a2_set a k j ((a2_get (m_hk d) k (j + 1) - a2_get (m_hk d) k j)
                                      / m_dz d ! j))
         (m_dhk_dz d)\<rparr>"

definition energy_sum :: "'a stflow_scheme \<Rightarrow> nat \<Rightarrow> real" where
  "energy_sum d j =
     for_lt 0 (m_nsp d)
       (\<lambda>k s. (let flxk = 0.5 * (a2_get (m_flux d) k (j - 1) + a2_get (m_flux d) k j);
                    s = s + a2_get (m_wdot d) k j * a2_get (m_hk d) k j
                in s + flxk * a2_get (m_dhk_dz d) k j / m_wt d ! k)) 0"

fun energy_interior ::
  "(nat \<Rightarrow> real) \<Rightarrow> real \<Rightarrow> nat \<Rightarrow> 'a stflow_scheme \<times> buffers \<Rightarrow> 'a stflow_scheme \<times> buffers" where
  "energy_interior x rdt j (d, rsd, diag) =
     (if m_do_energy d ! j then
        (let d = grad_hk x j d;
             sum = energy_sum d j;
             r = - m_cp d ! j * rho_u d x j * dTdz d x j - divHeatFlux d x j - sum;
             r = r / (m_rho d ! j * m_cp d ! j);
             r = r - rdt * (T d x j - prevSoln d c_offset_T j);
             r = r - m_qdotRadiation d ! j / (m_rho d ! j * m_cp d ! j)
         in (d, rsd(index d c_offset_T j := r), diag(index d c_offset_T j := 1)))
      else
        (d, rsd(index d c_offset_T j := T d x j - T_fixed d j),
            diag(index d c_offset_T j := 0)))"

fun energy_boundary :: "(nat \<Rightarrow> real) \<Rightarrow> nat \<Rightarrow> 'a stflow_scheme \<times> buffers \<Rightarrow> 'a stflow_scheme \<times> buffers" where
  "energy_boundary x j (d, rsd, diag) = (d, rsd(index d c_offset_T j := T d x j), diag)"

definition evalEnergy ::
  "(nat \<Rightarrow> real) \<Rightarrow> real \<Rightarrow> nat \<Rightarrow> nat \<Rightarrow> 'a stflow_scheme \<times> buffers \<Rightarrow> 'a stflow_scheme \<times> buffers" where
  "evalEnergy x rdt jmin jmax drd =
     (let drd = (if jmin = 0 then energy_boundary x jmin drd else drd);
          drd = (if jmax = size_sub (m_points (fst drd)) 1 then energy_boundary x jmax drd else drd)
      in for_le (interior_lo jmin) (interior_hi (fst drd) jmax) (energy_interior x rdt) drd)"

text \<open>
  The species residuals. At a boundary the loop over the species writes the flux
  balance of every species and accumulates the sum of the mass fractions; the entry of
  the excess species is then overwritten.
\<close>

fun species_left_step ::
  "'a stflow_scheme \<Rightarrow> (nat \<Rightarrow> real) \<Rightarrow> nat \<Rightarrow> nat \<Rightarrow> real \<times> (nat \<Rightarrow> real) \<Rightarrow> real \<times> (nat \<Rightarrow> real)" where
  "species_left_step d x jmin k (s, rsd) =
     (s + Y d x k jmin,
      rsd(index d (c_offset_Y + k) jmin :=
            - (a2_get (m_flux d) k jmin + rho_u d x jmin * Y d x k jmin)))"

fun species_left :: "'a stflow_scheme \<Rightarrow> (nat \<Rightarrow> real) \<Rightarrow> nat \<Rightarrow> buffers \<Rightarrow> buffers" where
  "species_left d x jmin (rsd, diag) =
     (let sr = for_lt 0 (m_nsp d) (species_left_step d x jmin) (0, rsd)
      in ((snd sr)(index d (c_offset_Y + m_kExcessLeft d) jmin := 1.0 - fst sr), diag))"

fun species_right_step ::
  "'a stflow_scheme \<Rightarrow> (nat \<Rightarrow> real) \<Rightarrow> nat \<Rightarrow> nat \<Rightarrow> real \<times> (nat \<Rightarrow> real) \<Rightarrow> real \<times> (nat \<Rightarrow> real)" where
  "species_right_step d x jmax k (s, rsd) =
     (s + Y d x k jmax,
      rsd(index d (k + c_offset_Y) jmax :=
            a2_get (m_flux d) k (size_sub jmax 1) + rho_u d x jmax * Y d x k jmax))"

fun species_right :: "'a stflow_scheme \<Rightarrow> (nat \<Rightarrow> real) \<Rightarrow> nat \<Rightarrow> buffers \<Rightarrow> buffers" where
  "species_right d x jmax (rsd, diag) =
     (let sr = for_lt 0 (m_nsp d) (species_right_step d x jmax) (0, rsd)
      in ((snd sr)(index d (c_offset_Y + m_kExcessRight d) jmax := 1.0 - fst sr),
          diag(index d (c_offset_Y + m_kExcessRight d) jmax := 0)))"

fun species_interior_step ::
  "'a stflow_scheme \<Rightarrow> (nat \<Rightarrow> real) \<Rightarrow> real \<Rightarrow> nat \<Rightarrow> nat \<Rightarrow> buffers \<Rightarrow> buffers" where
  "species_interior_step d x rdt j k (rsd, diag) =
     (let convec = rho_u d x j * dYdz d x k j;
          diffus = 2.0 * (a2_get (m_flux d) k j - a2_get (m_flux d) k (j - 1))
                     / (z d (j + 1) - z d (j - 1))
      in (rsd(index d (c_offset_Y + k) j :=
                (m_wt d ! k * a2_get (m_wdot d) k j - convec - diffus) / m_rho d ! j
                - rdt * (Y d x k j - prevSoln d (c_offset_Y + k) j)),
          diag(index d (c_offset_Y + k) j := 1)))"

definition evalSpecies ::
  "'a stflow_scheme \<Rightarrow> (nat \<Rightarrow> real) \<Rightarrow> real \<Rightarrow> nat \<Rightarrow> nat \<Rightarrow> buffers \<Rightarrow> buffers" where
  "evalSpecies d x rdt jmin jmax rd =
     (let rd = (if jmin = 0 then species_left d x jmin rd else rd);
          rd = (if jmax = size_sub (m_points d) 1 then species_right d x jmax rd else rd)
      in for_le (interior_lo jmin) (interior_hi d jmax)
           (\<lambda>j. for_lt 0 (m_nsp d) (species_interior_step d x rdt j)) rd)"

subsection \<open>Residual evaluation\<close>








subsection \<open>Buffer sizes\<close>

text \<open>
  The sizes that the constructor and \<^verbatim>\<open>resize\<close> give the buffers of a domain with
  \<open>m_nsp\<close> species and \<open>m_points\<close> points.
\<close>

definition shaped :: "array2d \<Rightarrow> nat \<Rightarrow> nat \<Rightarrow> bool" where
  "shaped a n m = (nrows a = n \<and> ncols a = m \<and> length (adata a) = n * m)"

definition sized :: "'a stflow_scheme \<Rightarrow> bool" where
  "sized d =
     (m_nv d = c_offset_Y + m_nsp d
      \<and> length (m_wt d) = m_nsp d
      \<and> length (m_z d) = m_points d
      \<and> length (m_dz d) = m_points d - 1
      \<and> length (m_slast d) = m_nv d * m_points d
      \<and> length (m_rho d) = m_points d
      \<and> length (m_wtm d) = m_points d
      \<and> length (m_cp d) = m_points d
      \<and> length (m_visc d) = m_points d
      \<and> length (m_tcon d) = m_points d
      \<and> length (m_diff d) = m_nsp d * m_points d
      \<and> (if m_do_multicomponent d
         then length (m_multidiff d) = m_nsp d * m_nsp d * m_points d
              \<and> shaped (m_dthermal d) (m_nsp d) (m_points d)
         else True)
      \<and> shaped (m_flux d) (m_nsp d) (m_points d)
      \<and> shaped (m_wdot d) (m_nsp d) (m_points d)
      \<and> shaped (m_hk d) (m_nsp d) (m_points d)
      \<and> shaped (m_dhk_dz d) (m_nsp d) (m_points d - 1)
      \<and> length (m_do_energy d) = m_points d
      \<and> length (m_qdotRadiation d) = m_points d
      \<and> length (m_fixedtemp d) = m_points d
      \<and> length (m_kRadiating d) = 2)"

text \<open>
  The mixture-averaged flux of species \<open>k\<close> on interval \<open>j\<close> before the correction: the
  species' diffusion coefficient times its mole-fraction difference over the width.
\<close>

definition uncorrected_flux :: "'a stflow_scheme \<Rightarrow> (nat \<Rightarrow> real) \<Rightarrow> nat \<Rightarrow> nat \<Rightarrow> real" where
  "uncorrected_flux d x k j =
     m_diff d ! (k + m_nsp d * j) * ((X d x k j - X d x k (j + 1)) / (z d (j + 1) - z d j))"

text \<open>The corrected mixture-averaged flux in closed form.\<close>

definition corrected_flux :: "'a stflow_scheme \<Rightarrow> (nat \<Rightarrow> real) \<Rightarrow> nat \<Rightarrow> nat \<Rightarrow> real" where
  "corrected_flux d x k j =
     uncorrected_flux d x k j - (\<Sum>k'<m_nsp d. uncorrected_flux d x k' j) * Y d x k j"

text \<open>
  The differential energy balance of an interior point in closed form: convection,
  conduction, the enthalpy flux of the diffusing species and the heat release, divided
  by density times specific heat, minus the transient term and the radiative loss. The
  enthalpy gradient is upwinded like the temperature gradient.
\<close>

definition dhk_dz_upwind :: "'a stflow_scheme \<Rightarrow> (nat \<Rightarrow> real) \<Rightarrow> nat \<Rightarrow> nat \<Rightarrow> real" where
  "dhk_dz_upwind d x k j =
     (if u d x j > 0
      then (a2_get (m_hk d) k j - a2_get (m_hk d) k (j - 1)) / m_dz d ! (j - 1)
      else (a2_get (m_hk d) k (j + 1) - a2_get (m_hk d) k j) / m_dz d ! j)"

definition energy_balance :: "'a stflow_scheme \<Rightarrow> (nat \<Rightarrow> real) \<Rightarrow> real \<Rightarrow> nat \<Rightarrow> real" where
  "energy_balance d x rdt j =
     (- m_cp d ! j * rho_u d x j * dTdz d x j - divHeatFlux d x j
        - (\<Sum>k<m_nsp d. a2_get (m_wdot d) k j * a2_get (m_hk d) k j
              + 0.5 * (a2_get (m_flux d) k (j - 1) + a2_get (m_flux d) k j)
                  * dhk_dz_upwind d x k j / m_wt d ! k))
       / (m_rho d ! j * m_cp d ! j)
     - rdt * (T d x j - prevSoln d c_offset_T j)
     - m_qdotRadiation d ! j / (m_rho d ! j * m_cp d ! j)"


definition gradlogT :: "'a stflow_scheme \<Rightarrow> (nat \<Rightarrow> real) \<Rightarrow> nat \<Rightarrow> real" where
  "gradlogT d x m =
     2.0 * (T d x (m + 1) - T d x m) / ((T d x (m + 1) + T d x m) * (z d (m + 1) - z d m))"


subsection \<open>Persistent configuration\<close>



subsection \<open>A small domain\<close>

text \<open>
  A domain of three points on the grid \<open>0, 1/2, 1\<close> with the two species \<open>H2\<close> and
  \<open>O2\<close>, mixture-averaged transport, energy equation off: the state of a freshly
  constructed object after \<^verbatim>\<open>setupGrid\<close>, used to run the definitions.
\<close>

definition zeros2 :: "nat \<Rightarrow> nat \<Rightarrow> array2d" where
  "zeros2 n m = \<lparr>nrows = n, ncols = m, adata = replicate (n * m) 0\<rparr>"

definition flow3 :: stflow where
  "flow3 = \<lparr>m_nv = 7, m_points = 3, m_iloc = 0, m_jstart = 0,
     m_z = [0, 1 / 2, 1], m_slast = replicate 21 0,
     refiner_active = (\<lambda>n. 4 \<le> n), jac_update_needed = False,
     m_nsp = 2, speciesNames = [''H2'', ''O2''], m_press = 101325,
     m_wt = [2, 32], m_dz = [1 / 2, 1 / 2],
     m_rho = [1, 1, 1], m_wtm = [4, 4, 4], m_cp = [1, 1, 1],
     m_visc = [0, 0, 0], m_tcon = [0, 0, 0],
     m_diff = replicate 6 1, m_multidiff = [],
     m_dthermal = zeros2 0 0, m_flux = zeros2 2 3, m_wdot = zeros2 2 3,
     m_hk = zeros2 2 3, m_dhk_dz = zeros2 2 2,
     m_do_energy = [False, False, False], m_do_soret = False,
     m_do_multicomponent = False, m_do_radiation = False, m_dovisc = True,
     m_force_full_update = False, m_usesLambda = True, m_isFree = False,
     m_qdotRadiation = [0, 0, 0], m_fixedtemp = [300, 350, 400],
     m_zfix = [], m_tfix = [],
     m_kExcessLeft = 0, m_kExcessRight = 0, m_kRadiating = [None, None],
     m_epsilon_left = 0, m_epsilon_right = 0,
     m_zfixed = Undef, m_tfixed = Undef\<rparr>"

text \<open>
  A state for the three points: velocity 1, temperature 300, lambda \<open>-1, -2, -4\<close>, and
  the mass fractions \<open>(1/2, 1/2)\<close>, \<open>(1/4, 3/4)\<close>, \<open>(0, 1)\<close>.
\<close>

definition state3 :: "nat \<Rightarrow> real" where
  "state3 i =
     (if i < 21
      then [1, 0, 300, - 1, 0, 1 / 2, 1 / 2,
            1, 0, 300, - 2, 0, 1 / 4, 3 / 4,
            1, 0, 300, - 4, 0, 0, 1] ! i
      else 0)"


section \<open>Properties\<close>

subsection \<open>Loops\<close>

lemma fold_upt_inv:
  assumes "\<And>j s. lo \<le> j \<Longrightarrow> j < hi \<Longrightarrow> P s \<Longrightarrow> P (body j s)" and "P s"
  shows "P (fold body [lo..<hi] s)"
  using assms
proof (induction hi)
  case 0
  then show ?case by simp
next
  case (Suc hi)
  show ?case
  proof (cases "lo \<le> hi")
    case True
    have "P (fold body [lo..<hi] s)"
      using Suc.IH Suc.prems by simp
    then show ?thesis
      using True Suc.prems(1) by simp
  next
    case False
    then show ?thesis using Suc.prems(2) by simp
  qed
qed

lemma fold_upt_split:
  assumes "lo \<le> j" "j < hi"
  shows "fold body [lo..<hi] s = fold body [Suc j..<hi] (body j (fold body [lo..<j] s))"
proof -
  have "[lo..<hi] = [lo..<j] @ j # [Suc j..<hi]"
    using assms by (metis le_add_diff_inverse less_imp_le_nat upt_add_eq_append upt_conv_Cons)
  then show ?thesis by simp
qed

lemma for_lt_empty: "hi \<le> lo \<Longrightarrow> for_lt lo hi body s = s"
  by (simp add: for_lt_def)

lemma for_lt_snoc:
  "lo \<le> hi \<Longrightarrow> for_lt lo (Suc hi) body s = body hi (for_lt lo hi body s)"
  by (simp add: for_lt_def)

lemma for_le_empty: "hi < lo \<Longrightarrow> for_le lo hi body s = s"
  by (simp add: for_le_def)


text \<open>
  The rule for one iteration of a counted loop: \<open>P\<close> holds until iteration \<open>j\<close>, which
  establishes \<open>Q\<close>, and the later iterations keep \<open>Q\<close>.
\<close>

lemma for_lt_at:
  assumes "lo \<le> j" "j < hi"
    and "P s"
    and "\<And>j' t. lo \<le> j' \<Longrightarrow> j' < j \<Longrightarrow> P t \<Longrightarrow> P (body j' t)"
    and "\<And>t. P t \<Longrightarrow> Q (body j t)"
    and "\<And>j' t. j < j' \<Longrightarrow> j' < hi \<Longrightarrow> Q t \<Longrightarrow> Q (body j' t)"
  shows "Q (for_lt lo hi body s)"
proof -
  have "P (fold body [lo..<j] s)"
    by (rule fold_upt_inv [where P = P]) (use assms(3,4) in simp_all)
  then have "Q (body j (fold body [lo..<j] s))"
    by (rule assms(5))
  then have "Q (fold body [Suc j..<hi] (body j (fold body [lo..<j] s)))"
    by (rule fold_upt_inv [where P = Q, rotated]) (use assms(6) in simp)
  then show ?thesis
    unfolding for_lt_def by (subst fold_upt_split [OF assms(1,2)])
qed

lemma for_lt_inv:
  assumes "P s" and "\<And>j t. lo \<le> j \<Longrightarrow> j < hi \<Longrightarrow> P t \<Longrightarrow> P (body j t)"
  shows "P (for_lt lo hi body s)"
  unfolding for_lt_def
  by (rule fold_upt_inv [where P = P]) (use assms in simp_all)

lemma for_le_at:
  assumes "lo \<le> j" "j \<le> hi"
    and "P s"
    and "\<And>j' t. lo \<le> j' \<Longrightarrow> j' < j \<Longrightarrow> P t \<Longrightarrow> P (body j' t)"
    and "\<And>t. P t \<Longrightarrow> Q (body j t)"
    and "\<And>j' t. j < j' \<Longrightarrow> j' \<le> hi \<Longrightarrow> Q t \<Longrightarrow> Q (body j' t)"
  shows "Q (for_le lo hi body s)"
proof -
  have "Q (for_lt lo (Suc hi) body s)"
    by (rule for_lt_at [where P = P and Q = Q and j = j]) (use assms in simp_all)
  then show ?thesis by (simp add: for_le_def for_lt_def)
qed

lemma for_le_inv:
  assumes "P s" and "\<And>j t. lo \<le> j \<Longrightarrow> j \<le> hi \<Longrightarrow> P t \<Longrightarrow> P (body j t)"
  shows "P (for_le lo hi body s)"
  unfolding for_le_def
  by (rule fold_upt_inv [where P = P]) (use assms in simp_all)

subsection \<open>Electric field\<close>

lemma evalElectricField_window:
  assumes "jmin \<le> j" "j \<le> jmax"
  shows "evalElectricField d x rsd jmin jmax (index d c_offset_E j) = x (index d c_offset_E j)"
  unfolding evalElectricField_def
  by (rule for_le_at [where P = "\<lambda>_. True" and j = j
        and Q = "\<lambda>r. r (index d c_offset_E j) = x (index d c_offset_E j)"])
    (use assms in simp_all)

text \<open>
  C8. At every point of the evaluated window the electric-field residual is the raw
  electric-field entry of the state, and each of \<open>solveElectricField\<close>,
  \<open>fixElectricField\<close> and \<open>doElectricField\<close> raises \<open>NotImplementedError\<close> on every call.
\<close>

theorem C8_electric_field:
  "(jmin \<le> j \<and> j \<le> jmax \<longrightarrow>
      evalElectricField d x rsd jmin jmax (index d c_offset_E j) = x (index d c_offset_E j))
   \<and> is_NotImplementedError (solveElectricField d jo)
   \<and> is_NotImplementedError (fixElectricField d jo)
   \<and> is_NotImplementedError (doElectricField d jo)
   \<and> \<not> is_CanteraError (solveElectricField d jo)
   \<and> \<not> is_CanteraError (fixElectricField d jo)
   \<and> \<not> is_CanteraError (doElectricField d jo)"
  by (simp add: evalElectricField_window solveElectricField_def fixElectricField_def
      doElectricField_def)

theorem C8_electric_field_witness:
  "(1::nat) \<le> 1 \<and> (1::nat) \<le> 2
   \<and> evalElectricField flow3 (\<lambda>i. real i) (\<lambda>i. 0) 1 2 (index flow3 c_offset_E 1) = 11
   \<and> is_NotImplementedError (solveElectricField flow3 (Some 1))
   \<and> is_NotImplementedError (fixElectricField flow3 (Some 1))
   \<and> is_NotImplementedError (doElectricField flow3 (Some 1))"
  using C8_electric_field [of 1 1 2 flow3 "\<lambda>i. real i" "\<lambda>i. 0" "Some 1"]
  by (simp add: index_def flow3_def c_offset_E_def)

subsection \<open>Component names and indices\<close>

lemma componentName_species:
  "k < m_nsp d \<Longrightarrow> componentName d (c_offset_Y + k) = speciesNames d ! k"
  by (simp add: componentName_def c_offset_defs)

lemma componentName_fixed:
  "n < c_offset_Y \<Longrightarrow> componentName d n \<in> fixed_names"
  by (auto simp: componentName_def c_offset_defs fixed_names_def)

lemma find_species:
  assumes "length (speciesNames d) = m_nsp d" "distinct (speciesNames d)" "k < m_nsp d"
  shows "find (\<lambda>n. componentName d n = speciesNames d ! k)
           [c_offset_Y..<m_nsp d + c_offset_Y] = Some (c_offset_Y + k)"
proof -
  have "\<exists>i<length [c_offset_Y..<m_nsp d + c_offset_Y].
          componentName d ([c_offset_Y..<m_nsp d + c_offset_Y] ! i) = speciesNames d ! k
          \<and> c_offset_Y + k = [c_offset_Y..<m_nsp d + c_offset_Y] ! i
          \<and> (\<forall>j<i. componentName d ([c_offset_Y..<m_nsp d + c_offset_Y] ! j) \<noteq> speciesNames d ! k)"
  proof (intro exI [of _ k] conjI allI impI)
    show "k < length [c_offset_Y..<m_nsp d + c_offset_Y]" using assms(3) by simp
    show "componentName d ([c_offset_Y..<m_nsp d + c_offset_Y] ! k) = speciesNames d ! k"
      using assms(3) by (simp add: componentName_species)
    show "c_offset_Y + k = [c_offset_Y..<m_nsp d + c_offset_Y] ! k"
      using assms(3) by simp
  next
    fix j assume "j < k"
    then have "j < m_nsp d" using assms(3) by simp
    then have "componentName d ([c_offset_Y..<m_nsp d + c_offset_Y] ! j) = speciesNames d ! j"
      by (simp add: componentName_species)
    moreover have "speciesNames d ! j \<noteq> speciesNames d ! k"
      using assms \<open>j < k\<close> by (simp add: nth_eq_iff_index_eq)
    ultimately show "componentName d ([c_offset_Y..<m_nsp d + c_offset_Y] ! j) \<noteq> speciesNames d ! k"
      by simp
  qed
  then show ?thesis
    by (simp only: find_Some_iff)
qed

lemma find_no_species:
  assumes "length (speciesNames d) = m_nsp d" "name \<notin> set (speciesNames d)"
  shows "find (\<lambda>n. componentName d n = name) [c_offset_Y..<m_nsp d + c_offset_Y] = None"
proof -
  have "componentName d n \<noteq> name" if "n \<in> set [c_offset_Y..<m_nsp d + c_offset_Y]" for n
  proof -
    have "c_offset_Y \<le> n" "n < m_nsp d + c_offset_Y" using that by simp_all
    then have "n = c_offset_Y + (n - c_offset_Y)" "n - c_offset_Y < m_nsp d" by simp_all
    then obtain k where k: "n = c_offset_Y + k" "k < m_nsp d" by blast
    then have "componentName d n = speciesNames d ! k"
      by (simp add: componentName_species)
    then show ?thesis using assms k by (metis nth_mem)
  qed
  then show ?thesis by (simp only: find_None_iff) blast
qed

text \<open>
  C9. With one name per species: if the species names are pairwise distinct and differ
  from the five fixed names, then for every component index \<open>n\<close> below \<open>5 + m_nsp\<close>
  looking up the name of component \<open>n\<close> gives \<open>n\<close> back; and for every name that is
  neither one of the five fixed names nor a species name the lookup raises an error.
\<close>

theorem C9_component_index_roundtrip:
  assumes "length (speciesNames d) = m_nsp d"
  shows "(distinct (speciesNames d) \<and> set (speciesNames d) \<inter> fixed_names = {}
            \<and> n < c_offset_Y + m_nsp d
          \<longrightarrow> componentIndex d (componentName d n) = Inr n)
       \<and> (name \<notin> fixed_names \<union> set (speciesNames d)
          \<longrightarrow> is_CanteraError (componentIndex d name))"
proof (intro conjI impI)
  assume a: "distinct (speciesNames d) \<and> set (speciesNames d) \<inter> fixed_names = {}
            \<and> n < c_offset_Y + m_nsp d"
  show "componentIndex d (componentName d n) = Inr n"
  proof (cases "n < c_offset_Y")
    case True
    then consider "n = 0" | "n = 1" | "n = 2" | "n = 3" | "n = 4"
      unfolding c_offset_Y_def by linarith
    then show ?thesis
      by cases (simp_all add: componentIndex_def componentName_def c_offset_defs)
  next
    case False
    then have "n = c_offset_Y + (n - c_offset_Y)" "n - c_offset_Y < m_nsp d"
      using a by linarith+
    then obtain k where k: "n = c_offset_Y + k" "k < m_nsp d" by blast
    have nm: "componentName d n = speciesNames d ! k"
      using k by (simp add: componentName_species)
    have "speciesNames d ! k \<in> set (speciesNames d)"
      using k assms by simp
    then have "speciesNames d ! k \<notin> fixed_names"
      using a by blast
    then have nf: "speciesNames d ! k \<noteq> ''velocity''" "speciesNames d ! k \<noteq> ''spread_rate''"
      "speciesNames d ! k \<noteq> ''T''" "speciesNames d ! k \<noteq> ''lambda''"
      "speciesNames d ! k \<noteq> ''eField''"
      by (auto simp: fixed_names_def)
    show ?thesis
      unfolding nm componentIndex_def
      using nf find_species [OF assms _ k(2)] a k(1) by simp
  qed
next
  assume b: "name \<notin> fixed_names \<union> set (speciesNames d)"
  then have nf: "name \<noteq> ''velocity''" "name \<noteq> ''spread_rate''"
      "name \<noteq> ''T''" "name \<noteq> ''lambda''" "name \<noteq> ''eField''"
    by (auto simp: fixed_names_def)
  have "find (\<lambda>n. componentName d n = name) [c_offset_Y..<m_nsp d + c_offset_Y] = None"
    using find_no_species [OF assms] b by simp
  then show "is_CanteraError (componentIndex d name)"
    unfolding componentIndex_def using nf by simp
qed

theorem C9_component_index_roundtrip_witness:
  "length (speciesNames flow3) = m_nsp flow3
   \<and> distinct (speciesNames flow3) \<and> set (speciesNames flow3) \<inter> fixed_names = {}
   \<and> 6 < c_offset_Y + m_nsp flow3
   \<and> componentName flow3 6 = ''O2''
   \<and> componentIndex flow3 (componentName flow3 6) = Inr 6
   \<and> ''N2'' \<notin> fixed_names \<union> set (speciesNames flow3)
   \<and> is_CanteraError (componentIndex flow3 ''N2'')"
proof -
  have len: "length (speciesNames flow3) = m_nsp flow3"
    by (simp add: flow3_def)
  have pre: "distinct (speciesNames flow3) \<and> set (speciesNames flow3) \<inter> fixed_names = {}
      \<and> 6 < c_offset_Y + m_nsp flow3"
    by (simp add: flow3_def fixed_names_def c_offset_Y_def)
  have nm: "''N2'' \<notin> fixed_names \<union> set (speciesNames flow3)"
    by (simp add: flow3_def fixed_names_def)
  have cn: "componentName flow3 6 = ''O2''"
    by (simp add: componentName_def flow3_def c_offset_defs)
  show ?thesis
    using C9_component_index_roundtrip [OF len, of 6 "''N2''"] len pre nm cn by simp
qed

subsection \<open>Finalisation\<close>

text \<open>
  C6. With Soret enabled and mixture-averaged transport, finalisation fails with a
  configuration error; with multicomponent transport or with Soret disabled it returns
  a domain.
\<close>

theorem C6_finalize_soret:
  "(\<not> m_do_multicomponent d \<and> m_do_soret d \<longrightarrow> is_CanteraError (finalize interp x d))
   \<and> (m_do_multicomponent d \<or> \<not> m_do_soret d \<longrightarrow> (\<exists>d'. finalize interp x d = Inr d'))"
  by (simp add: finalize_def Let_def)

theorem C6_finalize_soret_witness:
  "\<not> m_do_multicomponent (flow3\<lparr>m_do_soret := True\<rparr>) \<and> m_do_soret (flow3\<lparr>m_do_soret := True\<rparr>)
   \<and> is_CanteraError (finalize (\<lambda>a b c. 0) (\<lambda>i. 300) (flow3\<lparr>m_do_soret := True\<rparr>))
   \<and> (m_do_multicomponent flow3 \<or> \<not> m_do_soret flow3)
   \<and> (\<exists>d'. finalize (\<lambda>a b c. 0) (\<lambda>i. 300) flow3 = Inr d')"
  using C6_finalize_soret [of "flow3\<lparr>m_do_soret := True\<rparr>" "\<lambda>a b c. 0" "\<lambda>i. 300"]
    C6_finalize_soret [of flow3 "\<lambda>a b c. 0" "\<lambda>i. 300"]
  by (simp add: flow3_def)

subsection \<open>The grid\<close>

lemma length_vresize [simp]: "length (vresize n v xs) = n"
  by (simp add: vresize_def)

lemma vresize_same: "length xs = n \<Longrightarrow> vresize n v xs = xs"
  by (simp add: vresize_def)

lemma vresize_vresize [simp]: "vresize n v (vresize n v xs) = vresize n v xs"
  by (rule vresize_same) simp

lemma resize_head_fields:
  "m_points (resize_head nc np d) = np"
  "m_nsp (resize_head nc np d) = m_nsp d"
  "m_nv (resize_head nc np d) = nc"
  "m_z (resize_head nc np d) = vresize np 0 (m_z d)"
  "m_dz (resize_head nc np d) = m_dz d"
  by (simp_all add: resize_head_def Domain1D_resize_def Let_def)

lemma resize_ok:
  assumes "0 < np"
  shows "\<exists>d'. resize nc np d = (None, d') \<and> m_points d' = np \<and> m_nv d' = nc
           \<and> length (m_z d') = np \<and> length (m_dz d') = np - 1
           \<and> m_z d' = vresize np 0 (m_z d)"
  using assms
  by (simp add: resize_def resize_head_fields Let_def size_sub_def)

lemma setupGrid_loop_ok:
  assumes "1 \<le> j" "length (m_z d) = m_points d" "length (m_dz d) = m_points d - 1"
    and "\<forall>i. j \<le> i \<and> i < m_points d \<longrightarrow> zs ! (i - 1) < zs ! i"
    and "\<forall>i < j. i < m_points d \<longrightarrow> m_z d ! i = zs ! i"
    and "\<forall>i. 1 \<le> i \<and> i < j \<and> i < m_points d \<longrightarrow> m_dz d ! (i - 1) = zs ! i - zs ! (i - 1)"
  shows "\<exists>d'. setupGrid_loop zs j d = (None, d') \<and> m_points d' = m_points d
           \<and> length (m_z d') = m_points d
           \<and> (\<forall>i < m_points d. m_z d' ! i = zs ! i)
           \<and> (\<forall>i. 1 \<le> i \<and> i < m_points d \<longrightarrow> m_dz d' ! (i - 1) = zs ! i - zs ! (i - 1))"
  using assms
proof (induction zs j d rule: setupGrid_loop.induct)
  case (1 zs j d)
  show ?case
  proof (cases "j < m_points d")
    case False
    then show ?thesis
      using "1.prems" by (subst setupGrid_loop.simps) simp
  next
    case True
    have lt: "\<not> zs ! j \<le> zs ! (j - 1)"
      using "1.prems"(4) True by (simp add: not_le)
    define mz where "mz = (m_z d)[j := zs ! j]"
    define d1 where "d1 = d\<lparr>m_z := mz, m_dz := (m_dz d)[j - 1 := mz ! j - mz ! (j - 1)]\<rparr>"
    have mzj: "mz ! j = zs ! j" "mz ! (j - 1) = zs ! (j - 1)"
      using True "1.prems"(1,2,5) by (simp_all add: mz_def)
    have step: "setupGrid_loop zs j d = setupGrid_loop zs (Suc j) d1"
      using True lt by (subst setupGrid_loop.simps) (simp add: Let_def d1_def mz_def)
    have p: "m_points d1 = m_points d" by (simp add: d1_def)
    have "\<exists>d'. setupGrid_loop zs (Suc j) d1 = (None, d') \<and> m_points d' = m_points d1
           \<and> length (m_z d') = m_points d1
           \<and> (\<forall>i < m_points d1. m_z d' ! i = zs ! i)
           \<and> (\<forall>i. 1 \<le> i \<and> i < m_points d1 \<longrightarrow> m_dz d' ! (i - 1) = zs ! i - zs ! (i - 1))"
    proof (rule "1.IH" [OF True lt mz_def, folded d1_def])
      show "1 \<le> Suc j" by simp
      show "length (m_z d1) = m_points d1" using "1.prems"(2) by (simp add: d1_def mz_def)
      show "length (m_dz d1) = m_points d1 - 1" using "1.prems"(3) by (simp add: d1_def)
      show "\<forall>i. Suc j \<le> i \<and> i < m_points d1 \<longrightarrow> zs ! (i - 1) < zs ! i"
        using "1.prems"(4) p by simp
      show "\<forall>i<Suc j. i < m_points d1 \<longrightarrow> m_z d1 ! i = zs ! i"
      proof (intro allI impI)
        fix i assume "i < Suc j" "i < m_points d1"
        then show "m_z d1 ! i = zs ! i"
          using "1.prems"(2,5) True by (cases "i = j") (simp_all add: d1_def mz_def)
      qed
      show "\<forall>i. 1 \<le> i \<and> i < Suc j \<and> i < m_points d1 \<longrightarrow> m_dz d1 ! (i - 1) = zs ! i - zs ! (i - 1)"
      proof (intro allI impI)
        fix i assume a: "1 \<le> i \<and> i < Suc j \<and> i < m_points d1"
        show "m_dz d1 ! (i - 1) = zs ! i - zs ! (i - 1)"
        proof (cases "i = j")
          case True
          have "j - 1 < length (m_dz d)" using "1.prems"(1,3) \<open>j < m_points d\<close> by simp
          then show ?thesis using True mzj by (simp add: d1_def)
        next
          case False
          then have "i - 1 \<noteq> j - 1" using a "1.prems"(1) by linarith
          then show ?thesis using a False "1.prems"(6) p by (simp add: d1_def)
        qed
      qed
    qed
    then show ?thesis using step p by simp
  qed
qed

lemma setupGrid_loop_fail:
  assumes "1 \<le> j" "length (m_z d) = m_points d"
    and "\<exists>i. j \<le> i \<and> i < m_points d \<and> zs ! i \<le> zs ! (i - 1)"
  shows "\<exists>d' j0. setupGrid_loop zs j d =
             (Some (CanteraError ''StFlow::setupGrid''
                      ''grid points must be monotonically increasing''), d')
           \<and> j \<le> j0 \<and> j0 < m_points d \<and> zs ! j0 \<le> zs ! (j0 - 1)
           \<and> (\<forall>i. j \<le> i \<and> i < j0 \<longrightarrow> zs ! (i - 1) < zs ! i)
           \<and> (\<forall>i. j \<le> i \<and> i < j0 \<longrightarrow> m_z d' ! i = zs ! i)
           \<and> (\<forall>i. i < j \<or> j0 \<le> i \<longrightarrow> m_z d' ! i = m_z d ! i)
           \<and> m_points d' = m_points d"
  using assms
proof (induction zs j d rule: setupGrid_loop.induct)
  case (1 zs j d)
  have True: "j < m_points d" using "1.prems"(3) by auto
  show ?case
  proof (cases "zs ! j \<le> zs ! (j - 1)")
    case True
    have "setupGrid_loop zs j d =
        (Some (CanteraError ''StFlow::setupGrid''
                 ''grid points must be monotonically increasing''), d)"
      using True \<open>j < m_points d\<close> by (subst setupGrid_loop.simps) simp
    then show ?thesis
      using True \<open>j < m_points d\<close> by (intro exI [of _ d] exI [of _ j]) simp
  next
    case False
    define mz where "mz = (m_z d)[j := zs ! j]"
    define d1 where "d1 = d\<lparr>m_z := mz, m_dz := (m_dz d)[j - 1 := mz ! j - mz ! (j - 1)]\<rparr>"
    have step: "setupGrid_loop zs j d = setupGrid_loop zs (Suc j) d1"
      using True False by (subst setupGrid_loop.simps) (simp add: Let_def d1_def mz_def)
    have p: "m_points d1 = m_points d" by (simp add: d1_def)
    have ex: "\<exists>i. Suc j \<le> i \<and> i < m_points d1 \<and> zs ! i \<le> zs ! (i - 1)"
    proof -
      obtain i where i: "j \<le> i" "i < m_points d" "zs ! i \<le> zs ! (i - 1)"
        using "1.prems"(3) by blast
      then have "i \<noteq> j" using False by auto
      then show ?thesis using i p by (intro exI [of _ i]) simp
    qed
    have len: "length (m_z d1) = m_points d1"
      using "1.prems"(2) by (simp add: d1_def mz_def)
    obtain d' j0 where r: "setupGrid_loop zs (Suc j) d1 =
             (Some (CanteraError ''StFlow::setupGrid''
                      ''grid points must be monotonically increasing''), d')"
        "Suc j \<le> j0" "j0 < m_points d1" "zs ! j0 \<le> zs ! (j0 - 1)"
        "\<forall>i. Suc j \<le> i \<and> i < j0 \<longrightarrow> zs ! (i - 1) < zs ! i"
        "\<forall>i. Suc j \<le> i \<and> i < j0 \<longrightarrow> m_z d' ! i = zs ! i"
        "\<forall>i. i < Suc j \<or> j0 \<le> i \<longrightarrow> m_z d' ! i = m_z d1 ! i"
        "m_points d' = m_points d1"
      using "1.IH" [OF True False mz_def, folded d1_def, OF _ len ex] by auto
    have z1: "m_z d1 ! i = (if i = j then zs ! j else m_z d ! i)" for i
      using True "1.prems"(2) by (simp add: d1_def mz_def)
    show ?thesis
    proof (intro exI [of _ d'] exI [of _ j0] conjI allI impI)
      show "setupGrid_loop zs j d =
          (Some (CanteraError ''StFlow::setupGrid''
                   ''grid points must be monotonically increasing''), d')"
        using step r(1) by simp
      show "j \<le> j0" using r(2) by simp
      show "j0 < m_points d" using r(3) p by simp
      show "zs ! j0 \<le> zs ! (j0 - 1)" by (rule r(4))
      show "m_points d' = m_points d" using r(8) p by simp
    next
      fix i assume a: "j \<le> i \<and> i < j0"
      show "zs ! (i - 1) < zs ! i"
        using a r(5) False by (cases "i = j") auto
      show "m_z d' ! i = zs ! i"
      proof (cases "i = j")
        case True
        then show ?thesis using r(7) z1 by simp
      next
        case False
        then show ?thesis using a r(6) by simp
      qed
    next
      fix i assume a: "i < j \<or> j0 \<le> i"
      then have "i \<noteq> j" using r(2) by auto
      then show "m_z d' ! i = m_z d ! i"
        using a r(7) z1 by auto
    qed
  qed
qed


lemma setupGrid_unfold:
  assumes "zs \<noteq> []"
  obtains d1 where "resize (m_nv d) (length zs) d = (None, d1)" "m_points d1 = length zs"
    "length (m_z d1) = length zs" "length (m_dz d1) = length zs - 1"
    "m_z d1 = vresize (length zs) 0 (m_z d)"
    "setupGrid zs d = setupGrid_loop zs 1 (d1\<lparr>m_z := (m_z d1)[0 := zs ! 0]\<rparr>)"
proof -
  have "0 < length zs" using assms by simp
  from resize_ok [OF this, of "m_nv d" d]
  obtain d1 where d1: "resize (m_nv d) (length zs) d = (None, d1)" "m_points d1 = length zs"
    "length (m_z d1) = length zs" "length (m_dz d1) = length zs - 1"
    "m_z d1 = vresize (length zs) 0 (m_z d)"
    by blast
  have "setupGrid zs d = setupGrid_loop zs 1 (d1\<lparr>m_z := (m_z d1)[0 := zs ! 0]\<rparr>)"
    by (simp add: setupGrid_def d1(1))
  with d1 show ?thesis by (rule that)
qed

lemma setupGrid_loop_fail_state:
  assumes "1 \<le> j" "length (m_z d) = m_points d" "length (m_dz d) = m_points d - 1"
    and "m_z d ! (j - 1) = zs ! (j - 1)"
    and "\<exists>i. j \<le> i \<and> i < m_points d \<and> zs ! i \<le> zs ! (i - 1)"
  shows "\<exists>d' j0. setupGrid_loop zs j d =
             (Some (CanteraError ''StFlow::setupGrid''
                      ''grid points must be monotonically increasing''), d')
           \<and> j \<le> j0 \<and> j0 < m_points d \<and> zs ! j0 \<le> zs ! (j0 - 1)
           \<and> (\<forall>i. j \<le> i \<and> i < j0 \<longrightarrow> zs ! (i - 1) < zs ! i)
           \<and> d' = d\<lparr>m_z := m_z d', m_dz := m_dz d'\<rparr>
           \<and> length (m_z d') = m_points d \<and> length (m_dz d') = m_points d - 1
           \<and> (\<forall>i. m_z d' ! i = (if j \<le> i \<and> i < j0 then zs ! i else m_z d ! i))
           \<and> (\<forall>i. m_dz d' ! i =
                 (if j \<le> i + 1 \<and> i + 1 < j0 then zs ! (i + 1) - zs ! i else m_dz d ! i))"
  using assms
proof (induction zs j d rule: setupGrid_loop.induct)
  case (1 zs j d)
  have True: "j < m_points d" using "1.prems"(5) by auto
  show ?case
  proof (cases "zs ! j \<le> zs ! (j - 1)")
    case True
    have "setupGrid_loop zs j d =
        (Some (CanteraError ''StFlow::setupGrid''
                 ''grid points must be monotonically increasing''), d)"
      using True \<open>j < m_points d\<close> by (subst setupGrid_loop.simps) simp
    then show ?thesis
      using True \<open>j < m_points d\<close> "1.prems"(2,3)
      by (intro exI [of _ d] exI [of _ j]) simp
  next
    case False
    define mz where "mz = (m_z d)[j := zs ! j]"
    define d1 where "d1 = d\<lparr>m_z := mz, m_dz := (m_dz d)[j - 1 := mz ! j - mz ! (j - 1)]\<rparr>"
    have step: "setupGrid_loop zs j d = setupGrid_loop zs (Suc j) d1"
      using True False by (subst setupGrid_loop.simps) (simp add: Let_def d1_def mz_def)
    have p: "m_points d1 = m_points d" by (simp add: d1_def)
    have ex: "\<exists>i. Suc j \<le> i \<and> i < m_points d1 \<and> zs ! i \<le> zs ! (i - 1)"
    proof -
      obtain i where i: "j \<le> i" "i < m_points d" "zs ! i \<le> zs ! (i - 1)"
        using "1.prems"(5) by blast
      then have "i \<noteq> j" using False by auto
      then show ?thesis using i p by (intro exI [of _ i]) simp
    qed
    have len: "length (m_z d1) = m_points d1" "length (m_dz d1) = m_points d1 - 1"
      using "1.prems"(2,3) by (simp_all add: d1_def mz_def)
    have mzj: "mz ! j = zs ! j" "mz ! (j - 1) = zs ! (j - 1)"
      using True "1.prems"(1,2,4) by (simp_all add: mz_def)
    have at: "m_z d1 ! (Suc j - 1) = zs ! (Suc j - 1)"
      using mzj by (simp add: d1_def)
    have z1: "m_z d1 ! i = (if i = j then zs ! j else m_z d ! i)" for i
      using True "1.prems"(2) by (simp add: d1_def mz_def nth_list_update)
    have dz1: "m_dz d1 ! i = (if i = j - 1 then zs ! j - zs ! (j - 1) else m_dz d ! i)" for i
      using True "1.prems"(1,3) mzj by (simp add: d1_def nth_list_update)
    have one: "1 \<le> Suc j" by simp
    obtain d' j0 where r: "setupGrid_loop zs (Suc j) d1 =
             (Some (CanteraError ''StFlow::setupGrid''
                      ''grid points must be monotonically increasing''), d')"
        "Suc j \<le> j0" "j0 < m_points d1" "zs ! j0 \<le> zs ! (j0 - 1)"
        "\<forall>i. Suc j \<le> i \<and> i < j0 \<longrightarrow> zs ! (i - 1) < zs ! i"
        "d' = d1\<lparr>m_z := m_z d', m_dz := m_dz d'\<rparr>"
        "length (m_z d') = m_points d1" "length (m_dz d') = m_points d1 - 1"
        "\<forall>i. m_z d' ! i = (if Suc j \<le> i \<and> i < j0 then zs ! i else m_z d1 ! i)"
        "\<forall>i. m_dz d' ! i =
                 (if Suc j \<le> i + 1 \<and> i + 1 < j0 then zs ! (i + 1) - zs ! i else m_dz d1 ! i)"
      using "1.IH" [OF True False mz_def one, folded d1_def, OF len at ex] by blast
    have inc: "\<forall>i. j \<le> i \<and> i < j0 \<longrightarrow> zs ! (i - 1) < zs ! i"
    proof (intro allI impI)
      fix i assume i: "j \<le> i \<and> i < j0"
      show "zs ! (i - 1) < zs ! i"
      proof (cases "i = j")
        case True then show ?thesis using False by simp
      next
        case False then show ?thesis using i r(5) by simp
      qed
    qed
    have fr: "d' = d\<lparr>m_z := m_z d', m_dz := m_dz d'\<rparr>"
      by (subst r(6)) (simp add: d1_def)
    have zv: "\<forall>i. m_z d' ! i = (if j \<le> i \<and> i < j0 then zs ! i else m_z d ! i)"
      using r(2,9) z1 by auto
    have dzv: "\<forall>i. m_dz d' ! i =
                 (if j \<le> i + 1 \<and> i + 1 < j0 then zs ! (i + 1) - zs ! i else m_dz d ! i)"
    proof
      fix i
      show "m_dz d' ! i =
                 (if j \<le> i + 1 \<and> i + 1 < j0 then zs ! (i + 1) - zs ! i else m_dz d ! i)"
        using r(2) r(10) [rule_format, of i] dz1 [of i] "1.prems"(1)
        by (cases "i = j - 1") auto
    qed
    show ?thesis
      unfolding step
      apply (rule exI [of _ d'], rule exI [of _ j0])
      using r(1-4,7,8) p inc fr zv dzv by simp
  qed
qed


lemma resize_dz:
  assumes "0 < np"
  shows "m_dz (snd (resize nc np d)) = vresize (np - 1) 0 (m_dz d)"
  using assms
  by (simp add: resize_def resize_head_fields Let_def size_sub_def)


text \<open>
  C2 (as amended). For every non-empty coordinate sequence: if it is strictly
  increasing, \<open>setupGrid\<close> succeeds, stores the coordinates, and every interval width
  \<open>m_dz[j-1]\<close> is \<open>z[j] - z[j-1]\<close>; if it is not, \<open>setupGrid\<close> fails with a
  configuration error at the first coordinate \<open>j0\<close> that does not exceed its
  predecessor (every coordinate before \<open>j0\<close> exceeds its own), and the domain it leaves
  is the one that \<open>resize\<close> to the new point count leaves, but for the grid and the
  interval widths: the grid entries before \<open>j0\<close> hold the new coordinates and the widths
  of the intervals before \<open>j0 - 1\<close> their differences, while the later entries of both
  vectors are those of the resized old vectors.
\<close>

theorem C2_setupGrid:
  assumes "zs \<noteq> []"
  shows "(strictly_increasing zs \<longrightarrow>
           (\<exists>d'. setupGrid zs d = (None, d') \<and> m_points d' = length zs \<and> m_z d' = zs
              \<and> (\<forall>j \<in> {1..<length zs}. m_dz d' ! (j - 1) = zs ! j - zs ! (j - 1))))
       \<and> (\<not> strictly_increasing zs \<longrightarrow>
           (\<exists>d' j0. setupGrid zs d =
                (Some (CanteraError ''StFlow::setupGrid''
                         ''grid points must be monotonically increasing''), d')
              \<and> j0 \<in> {1..<length zs} \<and> zs ! j0 \<le> zs ! (j0 - 1)
              \<and> (\<forall>i \<in> {1..<j0}. zs ! (i - 1) < zs ! i)
              \<and> d' = (snd (resize (m_nv d) (length zs) d))\<lparr>m_z := m_z d', m_dz := m_dz d'\<rparr>
              \<and> m_points d' = length zs
              \<and> length (m_z d') = length zs \<and> length (m_dz d') = length zs - 1
              \<and> (\<forall>i < j0. m_z d' ! i = zs ! i)
              \<and> (\<forall>i \<in> {j0..<length zs}. m_z d' ! i = vresize (length zs) 0 (m_z d) ! i)
              \<and> (\<forall>i < length zs - 1. m_dz d' ! i =
                    (if i + 1 < j0 then zs ! (i + 1) - zs ! i
                     else vresize (length zs - 1) 0 (m_dz d) ! i))))"
proof -
  obtain d1 where d1: "resize (m_nv d) (length zs) d = (None, d1)" "m_points d1 = length zs"
    "length (m_z d1) = length zs" "length (m_dz d1) = length zs - 1"
    "m_z d1 = vresize (length zs) 0 (m_z d)"
    "setupGrid zs d = setupGrid_loop zs 1 (d1\<lparr>m_z := (m_z d1)[0 := zs ! 0]\<rparr>)"
    using setupGrid_unfold [OF assms] by blast
  have sd1: "snd (resize (m_nv d) (length zs) d) = d1" using d1(1) by simp
  have dz1: "m_dz d1 = vresize (length zs - 1) 0 (m_dz d)"
    using resize_dz [of "length zs" "m_nv d" d] assms unfolding sd1 by simp
  define d2 where "d2 = d1\<lparr>m_z := (m_z d1)[0 := zs ! 0]\<rparr>"
  have d2: "m_points d2 = length zs" "length (m_z d2) = m_points d2"
    "length (m_dz d2) = m_points d2 - 1" "m_z d2 ! 0 = zs ! 0"
    "\<And>i. 0 < i \<Longrightarrow> m_z d2 ! i = m_z d1 ! i"
    using d1(2-4) assms by (simp_all add: d2_def)
  show ?thesis
  proof (intro conjI impI)
    assume inc: "strictly_increasing zs"
    have "\<exists>d'. setupGrid_loop zs 1 d2 = (None, d') \<and> m_points d' = m_points d2
           \<and> length (m_z d') = m_points d2
           \<and> (\<forall>i < m_points d2. m_z d' ! i = zs ! i)
           \<and> (\<forall>i. 1 \<le> i \<and> i < m_points d2 \<longrightarrow> m_dz d' ! (i - 1) = zs ! i - zs ! (i - 1))"
    proof (rule setupGrid_loop_ok)
      show "\<forall>i. 1 \<le> i \<and> i < m_points d2 \<longrightarrow> zs ! (i - 1) < zs ! i"
        using inc d2(1) by (simp add: strictly_increasing_def)
      show "\<forall>i<1. i < m_points d2 \<longrightarrow> m_z d2 ! i = zs ! i"
        using d2(4) by simp
    qed (use d2 in simp_all)
    then obtain d' where d': "setupGrid_loop zs 1 d2 = (None, d')" "m_points d' = length zs"
      "length (m_z d') = length zs" "\<forall>i < length zs. m_z d' ! i = zs ! i"
      "\<forall>i. 1 \<le> i \<and> i < length zs \<longrightarrow> m_dz d' ! (i - 1) = zs ! i - zs ! (i - 1)"
      using d2(1) by auto
    have "m_z d' = zs"
      using d'(3,4) by (intro nth_equalityI) simp_all
    then show "\<exists>d'. setupGrid zs d = (None, d') \<and> m_points d' = length zs \<and> m_z d' = zs
              \<and> (\<forall>j \<in> {1..<length zs}. m_dz d' ! (j - 1) = zs ! j - zs ! (j - 1))"
      using d' d1(6) by (intro exI [of _ d']) (simp add: d2_def)
  next
    assume ninc: "\<not> strictly_increasing zs"
    then have ex: "\<exists>i. 1 \<le> i \<and> i < m_points d2 \<and> zs ! i \<le> zs ! (i - 1)"
      using d2(1) by (auto simp: strictly_increasing_def not_less)
    have one: "(1::nat) \<le> 1" by simp
    have at: "m_z d2 ! (1 - 1) = zs ! (1 - 1)" using d2(4) by simp
    from setupGrid_loop_fail_state [OF one d2(2,3) at ex]
    obtain d' j0 where r: "setupGrid_loop zs 1 d2 =
             (Some (CanteraError ''StFlow::setupGrid''
                      ''grid points must be monotonically increasing''), d')"
        "1 \<le> j0" "j0 < m_points d2" "zs ! j0 \<le> zs ! (j0 - 1)"
        "\<forall>i. 1 \<le> i \<and> i < j0 \<longrightarrow> zs ! (i - 1) < zs ! i"
        "d' = d2\<lparr>m_z := m_z d', m_dz := m_dz d'\<rparr>"
        "length (m_z d') = m_points d2" "length (m_dz d') = m_points d2 - 1"
        "\<forall>i. m_z d' ! i = (if 1 \<le> i \<and> i < j0 then zs ! i else m_z d2 ! i)"
        "\<forall>i. m_dz d' ! i =
                 (if 1 \<le> i + 1 \<and> i + 1 < j0 then zs ! (i + 1) - zs ! i else m_dz d2 ! i)"
      by blast
    have fr: "d' = (snd (resize (m_nv d) (length zs) d))\<lparr>m_z := m_z d', m_dz := m_dz d'\<rparr>"
      unfolding sd1 by (subst r(6)) (simp add: d2_def)
    have mp: "m_points d' = length zs"
      by (subst r(6)) (simp add: d2(1))
    have pre: "m_z d' ! i = zs ! i" if "i < j0" for i
      using that r(9) d2(4) by (cases "i = 0") simp_all
    have post: "m_z d' ! i = vresize (length zs) 0 (m_z d) ! i" if "j0 \<le> i" for i
      using that r(2,9) d2(5) d1(5) by simp
    have dz: "m_dz d' ! i = (if i + 1 < j0 then zs ! (i + 1) - zs ! i
                     else vresize (length zs - 1) 0 (m_dz d) ! i)" for i
      using r(10) dz1 by (simp add: d2_def)
    show "\<exists>d' j0. setupGrid zs d =
                (Some (CanteraError ''StFlow::setupGrid''
                         ''grid points must be monotonically increasing''), d')
              \<and> j0 \<in> {1..<length zs} \<and> zs ! j0 \<le> zs ! (j0 - 1)
              \<and> (\<forall>i \<in> {1..<j0}. zs ! (i - 1) < zs ! i)
              \<and> d' = (snd (resize (m_nv d) (length zs) d))\<lparr>m_z := m_z d', m_dz := m_dz d'\<rparr>
              \<and> m_points d' = length zs
              \<and> length (m_z d') = length zs \<and> length (m_dz d') = length zs - 1
              \<and> (\<forall>i < j0. m_z d' ! i = zs ! i)
              \<and> (\<forall>i \<in> {j0..<length zs}. m_z d' ! i = vresize (length zs) 0 (m_z d) ! i)
              \<and> (\<forall>i < length zs - 1. m_dz d' ! i =
                    (if i + 1 < j0 then zs ! (i + 1) - zs ! i
                     else vresize (length zs - 1) 0 (m_dz d) ! i))"
      apply (rule exI [of _ d'], rule exI [of _ j0])
      apply (intro conjI)
      subgoal using r(1) d1(6) by (simp add: d2_def)
      subgoal using r(2,3) d2(1) by simp
      subgoal by (rule r(4))
      subgoal using r(5) by simp
      subgoal by (rule fr)
      subgoal by (rule mp)
      subgoal using r(7) d2(1) by simp
      subgoal using r(8) d2(1) by simp
      subgoal using pre by simp
      subgoal using post by simp
      subgoal using dz by simp
      done
  qed
qed

lemma setupGrid_flow3_bad:
  "m_z (snd (setupGrid [0, 1, 1] flow3)) = [0, 1, 1]"
  "fst (setupGrid [0, 1, 1] flow3) = Some (CanteraError ''StFlow::setupGrid''
                         ''grid points must be monotonically increasing'')"
  by (simp_all add: setupGrid_def resize_def resize_head_def Domain1D_resize_def Let_def
      size_sub_def vresize_def flow3_def a2_resize_def zeros2_def)


lemma strictly_increasing_Cons2:
  "strictly_increasing (a # b # zs) = (a < b \<and> strictly_increasing (b # zs))"
proof
  assume l: "strictly_increasing (a # b # zs)"
  have "(1::nat) \<in> {1..<length (a # b # zs)}" by simp
  then have "(a # b # zs) ! (1 - 1) < (a # b # zs) ! 1"
    using l unfolding strictly_increasing_def by blast
  then have "a < b" by simp
  moreover have "(b # zs) ! (j - 1) < (b # zs) ! j" if "j \<in> {1..<length (b # zs)}" for j
  proof -
    have "Suc j \<in> {1..<length (a # b # zs)}" using that by simp
    then have "(a # b # zs) ! (Suc j - 1) < (a # b # zs) ! Suc j"
      using l unfolding strictly_increasing_def by blast
    then show ?thesis using that by (cases j) simp_all
  qed
  ultimately show "a < b \<and> strictly_increasing (b # zs)"
    by (simp add: strictly_increasing_def)
next
  assume r: "a < b \<and> strictly_increasing (b # zs)"
  have "(a # b # zs) ! (j - 1) < (a # b # zs) ! j" if "j \<in> {1..<length (a # b # zs)}" for j
  proof (cases j)
    case 0
    then show ?thesis using that by simp
  next
    case (Suc i)
    show ?thesis
    proof (cases "i = 0")
      case True
      then show ?thesis using r Suc by simp
    next
      case False
      then have "i \<in> {1..<length (b # zs)}" using that Suc by simp
      then have "(b # zs) ! (i - 1) < (b # zs) ! i"
        using r unfolding strictly_increasing_def by blast
      then show ?thesis using Suc False by (cases i) simp_all
    qed
  qed
  then show "strictly_increasing (a # b # zs)"
    unfolding strictly_increasing_def by blast
qed

lemma strictly_increasing_single: "strictly_increasing [a]"
  by (simp add: strictly_increasing_def)

theorem C2_setupGrid_partial_counterexample:
  "length [0, 1, 1 :: real] = m_points flow3
   \<and> \<not> strictly_increasing [0, 1, 1]
   \<and> fst (setupGrid [0, 1, 1] flow3) =
       Some (CanteraError ''StFlow::setupGrid'' ''grid points must be monotonically increasing'')
   \<and> m_z flow3 = [0, 1 / 2, 1]
   \<and> m_z (snd (setupGrid [0, 1, 1] flow3)) = [0, 1, 1]
   \<and> snd (setupGrid [0, 1, 1] flow3) \<noteq> flow3"
proof -
  have a: "m_z (snd (setupGrid [0, 1, 1] flow3)) = [0, 1, 1]"
    by (simp add: setupGrid_flow3_bad)
  have b: "m_z flow3 = [0, 1 / 2, 1]"
    by (simp add: flow3_def)
  have "snd (setupGrid [0, 1, 1] flow3) \<noteq> flow3"
  proof
    assume "snd (setupGrid [0, 1, 1] flow3) = flow3"
    then have "m_z (snd (setupGrid [0, 1, 1] flow3)) = m_z flow3" by simp
    then show False unfolding a b by simp
  qed
  moreover have "length [0, 1, 1 :: real] = m_points flow3"
    by (simp add: flow3_def)
  moreover have "\<not> strictly_increasing [0, 1, 1]"
    by (simp add: strictly_increasing_Cons2)
  ultimately show ?thesis
    using a b setupGrid_flow3_bad(2) by simp
qed

theorem C2_setupGrid_witness:
  "[0, 1 / 4, 1 :: real] \<noteq> [] \<and> strictly_increasing [0, 1 / 4, 1]
   \<and> (\<exists>d'. setupGrid [0, 1 / 4, 1] flow3 = (None, d') \<and> m_z d' = [0, 1 / 4, 1]
          \<and> m_dz d' ! 0 = 1 / 4 \<and> m_dz d' ! 1 = 3 / 4)
   \<and> [0, 1, 1 :: real] \<noteq> [] \<and> \<not> strictly_increasing [0, 1, 1]
   \<and> (\<exists>d'. setupGrid [0, 1, 1] flow3 =
          (Some (CanteraError ''StFlow::setupGrid''
                   ''grid points must be monotonically increasing''), d')
          \<and> m_z d' ! 0 = 0 \<and> m_z d' ! 1 = 1)"
proof -
  have ne: "[0, 1 / 4, 1 :: real] \<noteq> []" "[0, 1, 1 :: real] \<noteq> []" by simp_all
  have inc: "strictly_increasing [0, 1 / 4, 1]"
    by (simp add: strictly_increasing_Cons2 strictly_increasing_single)
  have ninc: "\<not> strictly_increasing [0, 1, 1]"
    by (simp add: strictly_increasing_Cons2)
  have "\<exists>d'. setupGrid [0, 1 / 4, 1] flow3 = (None, d') \<and> m_z d' = [0, 1 / 4, 1]
          \<and> m_dz d' ! 0 = 1 / 4 \<and> m_dz d' ! 1 = 3 / 4"
    using C2_setupGrid [OF ne(1), of flow3] inc by force
  moreover have "\<exists>d'. setupGrid [0, 1, 1] flow3 =
          (Some (CanteraError ''StFlow::setupGrid''
                   ''grid points must be monotonically increasing''), d')
          \<and> m_z d' ! 0 = 0 \<and> m_z d' ! 1 = 1"
  proof -
    obtain d' j0 where r: "setupGrid [0, 1, 1] flow3 =
                (Some (CanteraError ''StFlow::setupGrid''
                         ''grid points must be monotonically increasing''), d')"
        "j0 \<in> {1..<length [0, 1, 1 :: real]}" "[0, 1, 1 :: real] ! j0 \<le> [0, 1, 1] ! (j0 - 1)"
        "\<forall>i < j0. m_z d' ! i = [0, 1, 1] ! i"
      using C2_setupGrid [OF ne(2), of flow3] ninc by blast
    have "j0 = 1 \<or> j0 = 2" using r(2) by auto
    then have "j0 = 2" using r(3) by auto
    then have "m_z d' ! 0 = [0, 1, 1] ! 0" "m_z d' ! 1 = [0, 1, 1] ! 1"
      using r(4) by simp_all
    then have "m_z d' ! 0 = 0 \<and> m_z d' ! 1 = 1"
      by simp
    then show ?thesis using r(1) by blast
  qed
  ultimately show ?thesis using ne inc ninc by simp
qed

subsection \<open>Two-dimensional arrays\<close>

lemma a2_set_shape [simp]:
  "nrows (a2_set a i j v) = nrows a" "ncols (a2_set a i j v) = ncols a"
  "length (adata (a2_set a i j v)) = length (adata a)"
  by (simp_all add: a2_set_def)

lemma a2_get_set:
  "nrows a * j + i < length (adata a) \<Longrightarrow>
     a2_get (a2_set a i j v) i' j' =
       (if nrows a * j' + i' = nrows a * j + i then v else a2_get a i' j')"
  by (simp add: a2_get_def a2_set_def)

lemma a2_set_nth_other:
  "n \<noteq> nrows a * j + i \<Longrightarrow> adata (a2_set a i j v) ! n = adata a ! n"
  by (simp add: a2_set_def)

lemma shaped_index:
  assumes "shaped a n m" "i < n" "j < m"
  shows "nrows a * j + i < length (adata a)"
proof -
  have "n * j + i < n * j + n" using assms(2) by simp
  also have "\<dots> = n * Suc j" by simp
  also have "\<dots> \<le> n * m" using assms(3) by (intro mult_le_mono2) simp
  finally show ?thesis using assms(1) by (simp add: shaped_def)
qed

lemma col_index_eq:
  fixes n :: nat
  assumes "i < n" "i' < n"
  shows "n * j' + i' = n * j + i \<longleftrightarrow> j' = j \<and> i' = i"
proof
  assume e: "n * j' + i' = n * j + i"
  have "(n * j' + i') div n = j'" "(n * j + i) div n = j"
    using assms by simp_all
  then have "j' = j" using e by simp
  then show "j' = j \<and> i' = i" using e by simp
qed simp

text \<open>Accumulating a sum in a counted loop.\<close>

lemma for_lt_sum:
  "for_lt 0 n (\<lambda>k s. s + f k) (s0 :: real) = s0 + (\<Sum>k<n. f k)"
  by (induction n) (simp_all add: for_lt_empty for_lt_snoc)


subsection \<open>Mixture-averaged fluxes\<close>

lemma mix_flux_first_loop:
  fixes d :: "'a stflow_scheme" and x :: "nat \<Rightarrow> real" and dz s0 :: real and j n :: nat
    and fl :: array2d
  assumes "\<forall>k<n. nrows fl * j + k < length (adata fl)"
  defines "F \<equiv> \<lambda>k. m_diff d ! (k + m_nsp d * j) * ((X d x k j - X d x k (j + 1)) / dz)"
  defines "r \<equiv> for_lt 0 n (mix_flux_first d x j dz) (s0, fl)"
  shows "fst r = s0 - (\<Sum>k<n. F k)
       \<and> nrows (snd r) = nrows fl \<and> ncols (snd r) = ncols fl
       \<and> length (adata (snd r)) = length (adata fl)
       \<and> (\<forall>k<n. a2_get (snd r) k j = F k)
       \<and> (\<forall>i. (\<forall>k<n. i \<noteq> nrows fl * j + k) \<longrightarrow> adata (snd r) ! i = adata fl ! i)"
  using assms(1) unfolding r_def
proof (induction n)
  case 0
  then show ?case by (simp add: for_lt_empty)
next
  case (Suc n)
  define r0 where "r0 = for_lt 0 n (mix_flux_first d x j dz) (s0, fl)"
  have IH: "fst r0 = s0 - (\<Sum>k<n. F k)" "nrows (snd r0) = nrows fl" "ncols (snd r0) = ncols fl"
    "length (adata (snd r0)) = length (adata fl)"
    "\<forall>k<n. a2_get (snd r0) k j = F k"
    "\<forall>i. (\<forall>k<n. i \<noteq> nrows fl * j + k) \<longrightarrow> adata (snd r0) ! i = adata fl ! i"
    using Suc.IH Suc.prems unfolding r0_def by simp_all
  have inr: "nrows (snd r0) * j + n < length (adata (snd r0))"
    using Suc.prems IH(2,4) by simp
  have step: "for_lt 0 (Suc n) (mix_flux_first d x j dz) (s0, fl)
      = mix_flux_first d x j dz n r0"
    by (simp add: for_lt_snoc r0_def)
  define fl1 where "fl1 = a2_set (snd r0) n j (m_diff d ! (n + m_nsp d * j))"
  define fl2 where "fl2 = a2_set fl1 n j (a2_get fl1 n j * ((X d x n j - X d x n (j + 1)) / dz))"
  have res: "mix_flux_first d x j dz n r0 = (fst r0 - a2_get fl2 n j, fl2)"
    by (cases r0) (simp add: Let_def fl1_def fl2_def)
  have g1: "a2_get fl1 n j = m_diff d ! (n + m_nsp d * j)"
    using inr by (simp add: fl1_def a2_get_set)
  have inr1: "nrows fl1 * j + n < length (adata fl1)"
    using inr by (simp add: fl1_def)
  have g2: "a2_get fl2 n j = F n"
    using inr1 g1 by (simp add: fl2_def a2_get_set F_def)
  have other: "a2_get fl2 k j = a2_get (snd r0) k j" if "k \<noteq> n" for k
    using that inr inr1 by (simp add: fl2_def fl1_def a2_get_set)
  have nth: "adata fl2 ! i = adata (snd r0) ! i" if "i \<noteq> nrows fl * j + n" for i
    using that IH(2) by (simp add: fl2_def fl1_def a2_set_nth_other)
  show ?case
    unfolding step res
  proof (intro conjI allI impI)
    show "fst (fst r0 - a2_get fl2 n j, fl2) = s0 - (\<Sum>k<Suc n. F k)"
      using IH(1) g2 by simp
    show "nrows (snd (fst r0 - a2_get fl2 n j, fl2)) = nrows fl"
      "ncols (snd (fst r0 - a2_get fl2 n j, fl2)) = ncols fl"
      "length (adata (snd (fst r0 - a2_get fl2 n j, fl2))) = length (adata fl)"
      using IH(2,3,4) by (simp_all add: fl2_def fl1_def)
  next
    fix k assume "k < Suc n"
    then show "a2_get (snd (fst r0 - a2_get fl2 n j, fl2)) k j = F k"
      using g2 other IH(5) by (cases "k = n") simp_all
  next
    fix i assume "\<forall>k<Suc n. i \<noteq> nrows fl * j + k"
    then show "adata (snd (fst r0 - a2_get fl2 n j, fl2)) ! i = adata fl ! i"
      using nth IH(6) by simp
  qed
qed

text \<open>A loop that rewrites the entries \<open>(k, j)\<close>, \<open>k < n\<close>, of one column in place.\<close>

lemma column_update_loop:
  fixes fl :: array2d and g :: "nat \<Rightarrow> real \<Rightarrow> real" and j n :: nat
  assumes "\<forall>k<n. nrows fl * j + k < length (adata fl)"
  defines "r \<equiv> for_lt 0 n (\<lambda>k a. a2_set a k j (g k (a2_get a k j))) fl"
  shows "nrows r = nrows fl \<and> ncols r = ncols fl \<and> length (adata r) = length (adata fl)
       \<and> (\<forall>k<n. a2_get r k j = g k (a2_get fl k j))
       \<and> (\<forall>i. (\<forall>k<n. i \<noteq> nrows fl * j + k) \<longrightarrow> adata r ! i = adata fl ! i)"
  using assms(1) unfolding r_def
proof (induction n)
  case 0
  then show ?case by (simp add: for_lt_empty)
next
  case (Suc n)
  define r0 where "r0 = for_lt 0 n (\<lambda>k a. a2_set a k j (g k (a2_get a k j))) fl"
  have IH: "nrows r0 = nrows fl" "ncols r0 = ncols fl"
    "length (adata r0) = length (adata fl)"
    "\<forall>k<n. a2_get r0 k j = g k (a2_get fl k j)"
    "\<forall>i. (\<forall>k<n. i \<noteq> nrows fl * j + k) \<longrightarrow> adata r0 ! i = adata fl ! i"
    using Suc.IH Suc.prems unfolding r0_def by simp_all
  have inr: "nrows r0 * j + n < length (adata r0)"
    using Suc.prems IH(1,3) by simp
  have step: "for_lt 0 (Suc n) (\<lambda>k a. a2_set a k j (g k (a2_get a k j))) fl
      = a2_set r0 n j (g n (a2_get r0 n j))"
    by (simp add: for_lt_snoc r0_def)
  have old: "a2_get r0 n j = a2_get fl n j"
    using IH(1,5) by (simp add: a2_get_def)
  show ?case
    unfolding step
  proof (intro conjI allI impI)
    fix k assume "k < Suc n"
    then show "a2_get (a2_set r0 n j (g n (a2_get r0 n j))) k j = g k (a2_get fl k j)"
      using inr old IH(4) by (cases "k = n") (simp_all add: a2_get_set)
  next
    fix i assume "\<forall>k<Suc n. i \<noteq> nrows fl * j + k"
    then show "adata (a2_set r0 n j (g n (a2_get r0 n j))) ! i = adata fl ! i"
      using IH(1,5) by (simp add: a2_set_nth_other)
  qed (use IH in simp_all)
qed


lemma mix_flux_point_col:
  fixes d :: "'a stflow_scheme" and x :: "nat \<Rightarrow> real" and j :: nat and fl :: array2d
  assumes inr: "\<forall>k<m_nsp d. nrows fl * j + k < length (adata fl)"
  defines "r \<equiv> mix_flux_point d x j fl"
  shows "nrows r = nrows fl \<and> ncols r = ncols fl \<and> length (adata r) = length (adata fl)
       \<and> (\<forall>k<m_nsp d. a2_get r k j = corrected_flux d x k j)
       \<and> (\<forall>i. (\<forall>k<m_nsp d. i \<noteq> nrows fl * j + k) \<longrightarrow> adata r ! i = adata fl ! i)"
proof -
  define dz where "dz = z d (j + 1) - z d j"
  define sf where "sf = for_lt 0 (m_nsp d) (mix_flux_first d x j dz) (0, fl)"
  have first: "fst sf = 0 - (\<Sum>k<m_nsp d. uncorrected_flux d x k j)"
    "nrows (snd sf) = nrows fl" "ncols (snd sf) = ncols fl"
    "length (adata (snd sf)) = length (adata fl)"
    "\<forall>k<m_nsp d. a2_get (snd sf) k j = uncorrected_flux d x k j"
    "\<forall>i. (\<forall>k<m_nsp d. i \<noteq> nrows fl * j + k) \<longrightarrow> adata (snd sf) ! i = adata fl ! i"
    using mix_flux_first_loop [OF inr, of d x dz 0]
    unfolding sf_def uncorrected_flux_def dz_def by simp_all
  have r: "r = for_lt 0 (m_nsp d)
      (\<lambda>k a. a2_set a k j ((\<lambda>k v. v + fst sf * Y d x k j) k (a2_get a k j))) (snd sf)"
    by (simp add: r_def mix_flux_point_def Let_def sf_def dz_def)
  have inr2: "\<forall>k<m_nsp d. nrows (snd sf) * j + k < length (adata (snd sf))"
    using inr first(2,4) by simp
  note second = column_update_loop [OF inr2, of "\<lambda>k v. v + fst sf * Y d x k j", folded r]
  show ?thesis
  proof (intro conjI allI impI)
    show "nrows r = nrows fl" "ncols r = ncols fl" "length (adata r) = length (adata fl)"
      using second first(2,3,4) by simp_all
  next
    fix k assume "k < m_nsp d"
    then show "a2_get r k j = corrected_flux d x k j"
      using second first(1,5) by (simp add: corrected_flux_def)
  next
    fix i assume "\<forall>k<m_nsp d. i \<noteq> nrows fl * j + k"
    then show "adata r ! i = adata fl ! i"
      using second first(2,6) by simp
  qed
qed

lemma mix_flux_loop:
  fixes d :: "'a stflow_scheme" and x :: "nat \<Rightarrow> real" and fl :: array2d
  assumes sh: "shaped fl (m_nsp d) m" and j: "j0 \<le> j" "j < j1" "j1 \<le> m"
  defines "r \<equiv> for_lt j0 j1 (mix_flux_point d x) fl"
  shows "shaped r (m_nsp d) m \<and> (\<forall>k<m_nsp d. a2_get r k j = corrected_flux d x k j)"
  unfolding r_def
proof (rule for_lt_at [where j = j and P = "\<lambda>a. shaped a (m_nsp d) m"
      and Q = "\<lambda>a. shaped a (m_nsp d) m \<and> (\<forall>k<m_nsp d. a2_get a k j = corrected_flux d x k j)"])
  show "j0 \<le> j" "j < j1" "shaped fl (m_nsp d) m" by fact+
next
  fix j' t assume a: "j0 \<le> j'" "j' < j" "shaped t (m_nsp d) m"
  have "\<forall>k<m_nsp d. nrows t * j' + k < length (adata t)"
    using shaped_index [OF a(3)] a(2) j by simp
  from mix_flux_point_col [OF this, of x] a(3)
  show "shaped (mix_flux_point d x j' t) (m_nsp d) m"
    by (simp add: shaped_def)
next
  fix t assume a: "shaped t (m_nsp d) m"
  have "\<forall>k<m_nsp d. nrows t * j + k < length (adata t)"
    using shaped_index [OF a] j by simp
  from mix_flux_point_col [OF this, of x] a
  show "shaped (mix_flux_point d x j t) (m_nsp d) m
      \<and> (\<forall>k<m_nsp d. a2_get (mix_flux_point d x j t) k j = corrected_flux d x k j)"
    by (simp add: shaped_def)
next
  fix j' t
  assume a: "j < j'" "j' < j1"
    "shaped t (m_nsp d) m \<and> (\<forall>k<m_nsp d. a2_get t k j = corrected_flux d x k j)"
  have inr: "\<forall>k<m_nsp d. nrows t * j' + k < length (adata t)"
    using shaped_index [of t "m_nsp d" m _ j'] a j by simp
  note c = mix_flux_point_col [OF inr, of x]
  have nr: "nrows t = m_nsp d" using a(3) by (simp add: shaped_def)
  have "a2_get (mix_flux_point d x j' t) k j = a2_get t k j" if "k < m_nsp d" for k
  proof -
    have "\<forall>k'<m_nsp d. nrows t * j + k \<noteq> nrows t * j' + k'"
      using that a(1) nr by (simp add: col_index_eq)
    then show ?thesis using c nr by (simp add: a2_get_def)
  qed
  then show "shaped (mix_flux_point d x j' t) (m_nsp d) m
      \<and> (\<forall>k<m_nsp d. a2_get (mix_flux_point d x j' t) k j = corrected_flux d x k j)"
    using c a(3) by (simp add: shaped_def)
qed

lemma updateDiffFluxes_mix:
  assumes "\<not> m_do_multicomponent d" "\<not> m_do_soret d"
    and "shaped (m_flux d) (m_nsp d) (m_points d)"
    and "j0 \<le> j" "j < j1" "j1 \<le> m_points d" "k < m_nsp d"
  shows "a2_get (m_flux (updateDiffFluxes x j0 j1 d)) k j = corrected_flux d x k j"
  using mix_flux_loop [OF assms(3-6), of x] assms(1,2,7)
  by (simp add: updateDiffFluxes_def)

lemma corrected_flux_sum:
  "(\<Sum>k<m_nsp d. corrected_flux d x k j)
     = (1 - (\<Sum>k<m_nsp d. Y d x k j)) * (\<Sum>k<m_nsp d. uncorrected_flux d x k j)"
proof -
  define U where "U = (\<Sum>k<m_nsp d. uncorrected_flux d x k j)"
  have "(\<Sum>k<m_nsp d. corrected_flux d x k j)
      = (\<Sum>k<m_nsp d. uncorrected_flux d x k j - U * Y d x k j)"
    by (simp add: corrected_flux_def U_def)
  also have "\<dots> = U - U * (\<Sum>k<m_nsp d. Y d x k j)"
    by (simp add: sum_subtractf sum_distrib_left U_def)
  also have "\<dots> = (1 - (\<Sum>k<m_nsp d. Y d x k j)) * U"
    by (simp add: algebra_simps)
  finally show ?thesis by (simp add: U_def)
qed

text \<open>
  The sum of the stored fluxes in closed form: under mixture-averaged transport without
  the Soret term, for every interval \<open>j\<close> of the refreshed range, the species fluxes
  that \<open>updateDiffFluxes\<close> stores sum (in exact arithmetic) to \<open>1 - \<Sum>Y\<close> times the sum
  of the uncorrected fluxes, where \<open>\<Sum>Y\<close> is the sum of the mass fractions at the
  interval's left point. The correction term takes the mass fractions of the state as
  they are, so the sum is zero only when they sum to one at that point.
\<close>

lemma mixture_flux_sum_closed:
  assumes "\<not> m_do_multicomponent d" "\<not> m_do_soret d"
    and "shaped (m_flux d) (m_nsp d) (m_points d)"
    and "j0 \<le> j" "j < j1" "j1 \<le> m_points d"
  shows "(\<Sum>k<m_nsp d. a2_get (m_flux (updateDiffFluxes x j0 j1 d)) k j)
           = (1 - (\<Sum>k<m_nsp d. Y d x k j)) * (\<Sum>k<m_nsp d. uncorrected_flux d x k j)
       \<and> ((\<Sum>k<m_nsp d. Y d x k j) = 1 \<longrightarrow>
            (\<Sum>k<m_nsp d. a2_get (m_flux (updateDiffFluxes x j0 j1 d)) k j) = 0)"
proof -
  have "(\<Sum>k<m_nsp d. a2_get (m_flux (updateDiffFluxes x j0 j1 d)) k j)
      = (\<Sum>k<m_nsp d. corrected_flux d x k j)"
    using assms by (intro sum.cong refl updateDiffFluxes_mix) simp_all
  then show ?thesis
    by (simp add: corrected_flux_sum)
qed


lemma flow3_basic:
  "m_nsp flow3 = 2" "m_nv flow3 = 7" "m_points flow3 = 3"
  "\<not> m_do_multicomponent flow3" "\<not> m_do_soret flow3"
  "shaped (m_flux flow3) 2 3"
  by (simp_all add: flow3_def shaped_def zeros2_def)

lemma sum_less_2: "(\<Sum>k<(2::nat). f k) = (f 0 + f 1 :: real)"
  by (simp add: numeral_2_eq_2)

lemma mixture_flux_sum_normalised:
  "\<not> m_do_multicomponent flow3 \<and> \<not> m_do_soret flow3
   \<and> shaped (m_flux flow3) (m_nsp flow3) (m_points flow3)
   \<and> (0::nat) \<le> 0 \<and> (0::nat) < 2 \<and> 2 \<le> m_points flow3
   \<and> (\<Sum>k<m_nsp flow3. Y flow3 state3 k 0) = 1
   \<and> (\<Sum>k<m_nsp flow3. a2_get (m_flux (updateDiffFluxes state3 0 2 flow3)) k 0) = 0"
proof -
  have y: "(\<Sum>k<m_nsp flow3. Y flow3 state3 k 0) = 1"
    by (simp add: flow3_basic sum_less_2 Y_def index_def state3_def c_offset_Y_def)
  have sh: "shaped (m_flux flow3) (m_nsp flow3) (m_points flow3)"
    by (simp add: flow3_basic)
  have j: "(0::nat) \<le> 0" "(0::nat) < 2" "2 \<le> m_points flow3"
    by (simp_all add: flow3_basic)
  show ?thesis
    using mixture_flux_sum_closed [OF flow3_basic(4,5) sh j, of state3] y sh j flow3_basic(4,5)
    by simp
qed


subsection \<open>Radiation\<close>

lemma nth_list_update_total:
  "xs[k := v] ! i = (if i = k \<and> k < length xs then v else xs ! i)"
  by (cases "k < length xs") (simp_all add: nth_list_update list_update_beyond)

lemma for_lt_pointwise_write:
  fixes q0 :: "'v list"
  shows "length (for_lt lo hi (\<lambda>j q. q[j := f j]) q0) = length q0
       \<and> (\<forall>i. for_lt lo hi (\<lambda>j q. q[j := f j]) q0 ! i =
               (if lo \<le> i \<and> i < hi \<and> i < length q0 then f i else q0 ! i))"
proof (induction hi)
  case 0
  show ?case by (simp add: for_lt_empty)
next
  case (Suc hi)
  show ?case
  proof (cases "lo \<le> hi")
    case True
    then show ?thesis
      using Suc.IH by (auto simp: for_lt_snoc nth_list_update_total less_Suc_eq)
  next
    case False
    then show ?thesis by (auto simp: for_lt_empty)
  qed
qed

text \<open>
  C10. \<open>computeRadiation\<close> over the window \<open>[jmin, jmax]\<close> changes nothing but the
  radiative-loss vector, keeps its length, stores the loss of point \<open>i\<close> at every index
  \<open>i\<close> from \<open>jmin\<close> to \<open>jmax - 1\<close>, and leaves every other entry as it was: the entry at
  \<open>jmax\<close> (the last grid point in a full evaluation) and all entries outside the window.
\<close>

theorem C10_computeRadiation_frame:
  "computeRadiation x jmin jmax d
     = d\<lparr>m_qdotRadiation := m_qdotRadiation (computeRadiation x jmin jmax d)\<rparr>
   \<and> length (m_qdotRadiation (computeRadiation x jmin jmax d)) = length (m_qdotRadiation d)
   \<and> (\<forall>i \<in> {jmin..<jmax}. i < length (m_qdotRadiation d) \<longrightarrow>
         m_qdotRadiation (computeRadiation x jmin jmax d) ! i
           = radiative_heat_loss d x (boundary_Rad_left d x) (boundary_Rad_right d x) i)
   \<and> m_qdotRadiation (computeRadiation x jmin jmax d) ! jmax = m_qdotRadiation d ! jmax
   \<and> (\<forall>i. i \<notin> {jmin..<jmax} \<longrightarrow>
         m_qdotRadiation (computeRadiation x jmin jmax d) ! i = m_qdotRadiation d ! i)"
proof -
  have q: "m_qdotRadiation (computeRadiation x jmin jmax d)
      = for_lt jmin jmax
          (\<lambda>j q. q[j := radiative_heat_loss d x (boundary_Rad_left d x) (boundary_Rad_right d x) j])
          (m_qdotRadiation d)"
    by (simp add: computeRadiation_def computeRadiation_point_def [abs_def])
  have "computeRadiation x jmin jmax d
     = d\<lparr>m_qdotRadiation := m_qdotRadiation (computeRadiation x jmin jmax d)\<rparr>"
    by (simp add: computeRadiation_def)
  then show ?thesis
    unfolding q
    using for_lt_pointwise_write [of jmin jmax
        "radiative_heat_loss d x (boundary_Rad_left d x) (boundary_Rad_right d x)"
        "m_qdotRadiation d"]
    by simp
qed

theorem C10_computeRadiation_frame_witness:
  "(1::nat) \<in> {0..<2} \<and> 1 < length (m_qdotRadiation (flow3\<lparr>m_qdotRadiation := [7, 8, 9]\<rparr>))
   \<and> (2::nat) \<notin> {0..<2}
   \<and> m_qdotRadiation (computeRadiation state3 0 2 (flow3\<lparr>m_qdotRadiation := [7, 8, 9]\<rparr>)) ! 1 = 0
   \<and> m_qdotRadiation (computeRadiation state3 0 2 (flow3\<lparr>m_qdotRadiation := [7, 8, 9]\<rparr>)) ! 2 = 9"
proof -
  have "radiative_heat_loss (flow3\<lparr>m_qdotRadiation := [7, 8, 9]\<rparr>) state3 bl br 1 = 0" for bl br
    by (simp add: radiative_heat_loss_def flow3_def)
  then show ?thesis
    using C10_computeRadiation_frame [of state3 0 2 "flow3\<lparr>m_qdotRadiation := [7, 8, 9]\<rparr>"]
    by (simp add: flow3_def)
qed

subsection \<open>Lambda\<close>

lemma flow3_flags:
  "m_usesLambda flow3" "\<not> m_isFree flow3" "\<not> m_do_radiation flow3"
  "m_kExcessLeft flow3 = 0" "m_kExcessRight flow3 = 0"
  by (simp_all add: flow3_def)

subsection \<open>The layout of the state vector\<close>

lemma index_eq_iff:
  assumes "n < m_nv d" "n' < m_nv d"
  shows "index d n' j' = index d n j \<longleftrightarrow> j' = j \<and> n' = n"
  unfolding index_def using assms by (rule col_index_eq)

lemma species_index_eq_iff:
  assumes "m_nv d = c_offset_Y + m_nsp d" "k < m_nsp d" "k' < m_nsp d"
  shows "index d (c_offset_Y + k') j' = index d (c_offset_Y + k) j \<longleftrightarrow> j' = j \<and> k' = k"
  using index_eq_iff [of "c_offset_Y + k" d "c_offset_Y + k'" j' j] assms by simp

subsection \<open>The lambda equation\<close>




subsection \<open>Species residuals at the boundaries\<close>

lemma species_left_loop:
  fixes d :: "'a stflow_scheme" and x rsd :: "nat \<Rightarrow> real" and jmin n :: nat and s0 :: real
  assumes nv: "m_nv d = c_offset_Y + m_nsp d" and n: "n \<le> m_nsp d"
  defines "r \<equiv> for_lt 0 n (species_left_step d x jmin) (s0, rsd)"
  shows "fst r = s0 + (\<Sum>k<n. Y d x k jmin)
       \<and> (\<forall>k<n. snd r (index d (c_offset_Y + k) jmin)
              = - (a2_get (m_flux d) k jmin + rho_u d x jmin * Y d x k jmin))
       \<and> (\<forall>i. (\<forall>k<n. i \<noteq> index d (c_offset_Y + k) jmin) \<longrightarrow> snd r i = rsd i)"
  using n unfolding r_def
proof (induction n)
  case 0
  show ?case by (simp add: for_lt_empty)
next
  case (Suc n)
  define r0 where "r0 = for_lt 0 n (species_left_step d x jmin) (s0, rsd)"
  have IH: "fst r0 = s0 + (\<Sum>k<n. Y d x k jmin)"
    "\<forall>k<n. snd r0 (index d (c_offset_Y + k) jmin)
              = - (a2_get (m_flux d) k jmin + rho_u d x jmin * Y d x k jmin)"
    "\<forall>i. (\<forall>k<n. i \<noteq> index d (c_offset_Y + k) jmin) \<longrightarrow> snd r0 i = rsd i"
    using Suc unfolding r0_def by simp_all
  have step: "for_lt 0 (Suc n) (species_left_step d x jmin) (s0, rsd)
      = species_left_step d x jmin n r0"
    by (simp add: for_lt_snoc r0_def)
  have ne: "index d (c_offset_Y + k) jmin \<noteq> index d (c_offset_Y + n) jmin" if "k < n" for k
    using species_index_eq_iff [OF nv, of n k jmin jmin] that Suc.prems by simp
  show ?case
    unfolding step using IH ne by (cases r0) (auto simp: less_Suc_eq)
qed

lemma species_right_loop:
  fixes d :: "'a stflow_scheme" and x rsd :: "nat \<Rightarrow> real" and jmax n :: nat and s0 :: real
  assumes nv: "m_nv d = c_offset_Y + m_nsp d" and n: "n \<le> m_nsp d"
  defines "r \<equiv> for_lt 0 n (species_right_step d x jmax) (s0, rsd)"
  shows "fst r = s0 + (\<Sum>k<n. Y d x k jmax)
       \<and> (\<forall>k<n. snd r (index d (c_offset_Y + k) jmax)
              = a2_get (m_flux d) k (size_sub jmax 1) + rho_u d x jmax * Y d x k jmax)
       \<and> (\<forall>i. (\<forall>k<n. i \<noteq> index d (c_offset_Y + k) jmax) \<longrightarrow> snd r i = rsd i)"
  using n unfolding r_def
proof (induction n)
  case 0
  show ?case by (simp add: for_lt_empty)
next
  case (Suc n)
  define r0 where "r0 = for_lt 0 n (species_right_step d x jmax) (s0, rsd)"
  have IH: "fst r0 = s0 + (\<Sum>k<n. Y d x k jmax)"
    "\<forall>k<n. snd r0 (index d (c_offset_Y + k) jmax)
              = a2_get (m_flux d) k (size_sub jmax 1) + rho_u d x jmax * Y d x k jmax"
    "\<forall>i. (\<forall>k<n. i \<noteq> index d (c_offset_Y + k) jmax) \<longrightarrow> snd r0 i = rsd i"
    using Suc unfolding r0_def by simp_all
  have step: "for_lt 0 (Suc n) (species_right_step d x jmax) (s0, rsd)
      = species_right_step d x jmax n r0"
    by (simp add: for_lt_snoc r0_def)
  have ne: "index d (c_offset_Y + k) jmax \<noteq> index d (c_offset_Y + n) jmax" if "k < n" for k
    using species_index_eq_iff [OF nv, of n k jmax jmax] that Suc.prems by simp
  show ?case
    unfolding step using IH ne by (cases r0) (auto simp: less_Suc_eq add.commute)
qed

text \<open>The boundary residual of species \<open>k\<close>: normalisation for the excess species, flux balance otherwise.\<close>

lemma species_left_at:
  fixes d :: "'a stflow_scheme"
  assumes nv: "m_nv d = c_offset_Y + m_nsp d" and ex: "m_kExcessLeft d < m_nsp d"
    and k: "k < m_nsp d"
  shows "fst (species_left d x jmin rd) (index d (c_offset_Y + k) jmin) =
           (if k = m_kExcessLeft d then 1 - (\<Sum>k'<m_nsp d. Y d x k' jmin)
            else - (a2_get (m_flux d) k jmin + rho_u d x jmin * Y d x k jmin))"
proof -
  obtain rsd diag where rd: "rd = (rsd, diag)" by (cases rd)
  note l = species_left_loop [OF nv order_refl, of x jmin 0 rsd]
  show ?thesis
    unfolding rd using l k ex species_index_eq_iff [OF nv ex k, of jmin jmin]
    by (simp add: Let_def)
qed

lemma species_right_at:
  fixes d :: "'a stflow_scheme"
  assumes nv: "m_nv d = c_offset_Y + m_nsp d" and ex: "m_kExcessRight d < m_nsp d"
    and k: "k < m_nsp d"
  shows "fst (species_right d x jmax rd) (index d (c_offset_Y + k) jmax) =
           (if k = m_kExcessRight d then 1 - (\<Sum>k'<m_nsp d. Y d x k' jmax)
            else a2_get (m_flux d) k (size_sub jmax 1) + rho_u d x jmax * Y d x k jmax)"
proof -
  obtain rsd diag where rd: "rd = (rsd, diag)" by (cases rd)
  note l = species_right_loop [OF nv order_refl, of x jmax 0 rsd]
  show ?thesis
    unfolding rd using l k ex species_index_eq_iff [OF nv ex k, of jmax jmax]
    by (simp add: Let_def)
qed


lemma species_right_other:
  fixes d :: "'a stflow_scheme"
  assumes nv: "m_nv d = c_offset_Y + m_nsp d" and ex: "m_kExcessRight d < m_nsp d"
    and i: "\<forall>k<m_nsp d. i \<noteq> index d (c_offset_Y + k) jmax"
  shows "fst (species_right d x jmax rd) i = fst rd i"
proof -
  obtain rsd diag where rd: "rd = (rsd, diag)" by (cases rd)
  note l = species_right_loop [OF nv order_refl, of x jmax 0 rsd]
  show ?thesis
    unfolding rd using l i ex by (simp add: Let_def)
qed

lemma species_interior_other:
  fixes d :: "'a stflow_scheme"
  assumes "\<forall>j k. lo \<le> j \<and> j \<le> hi \<and> k < m_nsp d \<longrightarrow> i \<noteq> index d (c_offset_Y + k) j"
  shows "fst (for_le lo hi (\<lambda>j. for_lt 0 (m_nsp d) (species_interior_step d x rdt j)) rd) i
           = fst rd i"
proof (rule for_le_inv [where P = "\<lambda>s::buffers. fst s i = fst rd i"])
  fix j and t :: buffers assume a: "lo \<le> j" "j \<le> hi" "fst t i = fst rd i"
  show "fst (for_lt 0 (m_nsp d) (species_interior_step d x rdt j) t) i = fst rd i"
  proof (rule for_lt_inv [where P = "\<lambda>s::buffers. fst s i = fst rd i"])
    fix k and s :: buffers assume "0 \<le> k" "k < m_nsp d" "fst s i = fst rd i"
    then show "fst (species_interior_step d x rdt j k s) i = fst rd i"
      using assms a(1,2) by (cases s) (simp add: Let_def)
  qed (rule a(3))
qed simp


text \<open>
  C3. On a domain of at least two points whose excess-species indices are species
  indices: when the window starts at the left boundary, the residual written there for
  species \<open>k\<close> is \<open>1 - \<Sum>Y\<close> (the sum over all species at that point) if \<open>k\<close> is the left
  excess species, and otherwise the flux balance \<open>- (flux + rho_u * Y)\<close>; when the window
  ends at the right boundary, the residual there is \<open>1 - \<Sum>Y\<close> for the right excess
  species and the flux balance \<open>flux + rho_u * Y\<close> (flux of the last interval) for every
  other species.
\<close>

theorem C3_species_boundary:
  fixes d :: "'a stflow_scheme"
  assumes nv: "m_nv d = c_offset_Y + m_nsp d" and np: "2 \<le> m_points d"
    and exl: "m_kExcessLeft d < m_nsp d" and exr: "m_kExcessRight d < m_nsp d"
    and k: "k < m_nsp d"
  shows "(jmin = 0 \<longrightarrow>
            fst (evalSpecies d x rdt jmin jmax rd) (index d (c_offset_Y + k) 0) =
              (if k = m_kExcessLeft d then 1 - (\<Sum>k'<m_nsp d. Y d x k' 0)
               else - (a2_get (m_flux d) k 0 + rho_u d x 0 * Y d x k 0)))
       \<and> (jmax = m_points d - 1 \<longrightarrow>
            fst (evalSpecies d x rdt jmin jmax rd) (index d (c_offset_Y + k) jmax) =
              (if k = m_kExcessRight d then 1 - (\<Sum>k'<m_nsp d. Y d x k' jmax)
               else a2_get (m_flux d) k (jmax - 1) + rho_u d x jmax * Y d x k jmax))"
proof (intro conjI impI)
  define rd1 where "rd1 = (if jmin = 0 then species_left d x jmin rd else rd)"
  define rd2 where
    "rd2 = (if jmax = size_sub (m_points d) 1 then species_right d x jmax rd1 else rd1)"
  have ev: "evalSpecies d x rdt jmin jmax rd
      = for_le (interior_lo jmin) (interior_hi d jmax)
          (\<lambda>j. for_lt 0 (m_nsp d) (species_interior_step d x rdt j)) rd2"
    by (simp add: evalSpecies_def Let_def rd1_def rd2_def)
  have ss: "size_sub (m_points d) 1 = m_points d - 1" "size_sub (m_points d) 2 = m_points d - 2"
    using np by (simp_all add: size_sub_def)
  have interior: "fst (evalSpecies d x rdt jmin jmax rd) (index d (c_offset_Y + k) j)
      = fst rd2 (index d (c_offset_Y + k) j)" if "j = 0 \<or> j = m_points d - 1" for j
    unfolding ev
  proof (rule species_interior_other, intro allI impI)
    fix j' k'
    assume a: "interior_lo jmin \<le> j' \<and> j' \<le> interior_hi d jmax \<and> k' < m_nsp d"
    then have "1 \<le> j'" "j' \<le> m_points d - 2"
      by (simp_all add: interior_lo_def interior_hi_def ss)
    then have "j' \<noteq> j" using that np by auto
    then show "index d (c_offset_Y + k) j \<noteq> index d (c_offset_Y + k') j'"
      using species_index_eq_iff [OF nv, of k' k j j'] a k by simp
  qed
  {
    assume l: "jmin = 0"
    have "fst rd2 (index d (c_offset_Y + k) 0) = fst rd1 (index d (c_offset_Y + k) 0)"
    proof (cases "jmax = size_sub (m_points d) 1")
      case True
      then have "jmax \<noteq> 0" using np ss by simp
      then have "\<forall>k'<m_nsp d. index d (c_offset_Y + k) 0 \<noteq> index d (c_offset_Y + k') jmax"
        using species_index_eq_iff [OF nv _ k, of _ 0 jmax] by auto
      then show ?thesis
        using True species_right_other [OF nv exr] by (simp add: rd2_def)
    next
      case False
      then show ?thesis by (simp add: rd2_def)
    qed
    then show "fst (evalSpecies d x rdt jmin jmax rd) (index d (c_offset_Y + k) 0) =
              (if k = m_kExcessLeft d then 1 - (\<Sum>k'<m_nsp d. Y d x k' 0)
               else - (a2_get (m_flux d) k 0 + rho_u d x 0 * Y d x k 0))"
      using interior [of 0] l species_left_at [OF nv exl k, of x 0 rd]
      by (simp add: rd1_def)
  }
  {
    assume r: "jmax = m_points d - 1"
    then have j1: "size_sub jmax 1 = jmax - 1"
      using np by (simp add: size_sub_def)
    show "fst (evalSpecies d x rdt jmin jmax rd) (index d (c_offset_Y + k) jmax) =
              (if k = m_kExcessRight d then 1 - (\<Sum>k'<m_nsp d. Y d x k' jmax)
               else a2_get (m_flux d) k (jmax - 1) + rho_u d x jmax * Y d x k jmax)"
      using interior [of jmax] r ss species_right_at [OF nv exr k, of x jmax rd1] j1
      by (simp add: rd2_def)
  }
qed

lemma flow3_sized: "sized flow3"
  by (simp add: sized_def flow3_def shaped_def zeros2_def c_offset_Y_def)

theorem C3_species_boundary_witness:
  "m_nv flow3 = c_offset_Y + m_nsp flow3 \<and> 2 \<le> m_points flow3
   \<and> m_kExcessLeft flow3 < m_nsp flow3 \<and> m_kExcessRight flow3 < m_nsp flow3
   \<and> (0::nat) < m_nsp flow3 \<and> (1::nat) < m_nsp flow3 \<and> 2 = m_points flow3 - 1
   \<and> fst (evalSpecies flow3 state3 0 0 2 (\<lambda>i. 0, \<lambda>i. 0)) (index flow3 (c_offset_Y + 0) 0) = 0
   \<and> fst (evalSpecies flow3 state3 0 0 2 (\<lambda>i. 0, \<lambda>i. 0)) (index flow3 (c_offset_Y + 1) 0) = - (1 / 2)
   \<and> fst (evalSpecies flow3 state3 0 0 2 (\<lambda>i. 0, \<lambda>i. 0)) (index flow3 (c_offset_Y + 0) 2) = 0
   \<and> fst (evalSpecies flow3 state3 0 0 2 (\<lambda>i. 0, \<lambda>i. 0)) (index flow3 (c_offset_Y + 1) 2) = 1"
proof -
  have pre: "m_nv flow3 = c_offset_Y + m_nsp flow3" "2 \<le> m_points flow3"
    "m_kExcessLeft flow3 < m_nsp flow3" "m_kExcessRight flow3 < m_nsp flow3"
    by (simp_all add: flow3_basic flow3_flags c_offset_Y_def)
  have k: "(0::nat) < m_nsp flow3" "(1::nat) < m_nsp flow3" "2 = m_points flow3 - 1"
    by (simp_all add: flow3_basic)
  have vals: "(\<Sum>k'<m_nsp flow3. Y flow3 state3 k' 0) = 1"
    "(\<Sum>k'<m_nsp flow3. Y flow3 state3 k' 2) = 1"
    "a2_get (m_flux flow3) 1 0 = 0" "a2_get (m_flux flow3) 1 1 = 0"
    "rho_u flow3 state3 0 = 1" "rho_u flow3 state3 2 = 1"
    "Y flow3 state3 1 0 = 1 / 2" "Y flow3 state3 1 2 = 1"
    by (simp_all add: flow3_basic sum_less_2 Y_def index_def state3_def c_offset_defs
        rho_u_def a2_get_def) (simp_all add: flow3_def zeros2_def)
  have "fst (evalSpecies flow3 state3 0 0 2 (\<lambda>i. 0, \<lambda>i. 0)) (index flow3 (c_offset_Y + 0) 0) = 0
      \<and> fst (evalSpecies flow3 state3 0 0 2 (\<lambda>i. 0, \<lambda>i. 0)) (index flow3 (c_offset_Y + 0) 2) = 0"
    using C3_species_boundary [OF pre k(1), of 0 state3 0 2 "(\<lambda>i. 0, \<lambda>i. 0)"] vals(1,2)
    by (simp add: flow3_flags flow3_basic)
  moreover
  have "fst (evalSpecies flow3 state3 0 0 2 (\<lambda>i. 0, \<lambda>i. 0)) (index flow3 (c_offset_Y + 1) 0) = - (1 / 2)
      \<and> fst (evalSpecies flow3 state3 0 0 2 (\<lambda>i. 0, \<lambda>i. 0)) (index flow3 (c_offset_Y + 1) 2) = 1"
    using C3_species_boundary [OF pre k(2), of 0 state3 0 2 "(\<lambda>i. 0, \<lambda>i. 0)"] vals(3-8)
    by (simp add: flow3_flags flow3_basic)
  ultimately show ?thesis
    using pre k by simp
qed

subsection \<open>The energy equation\<close>

lemma dhk_update_simps [simp]:
  "index (d\<lparr>m_dhk_dz := a\<rparr>) = index d"
  "T (d\<lparr>m_dhk_dz := a\<rparr>) = T d"
  "u (d\<lparr>m_dhk_dz := a\<rparr>) = u d"
  "rho_u (d\<lparr>m_dhk_dz := a\<rparr>) = rho_u d"
  "dTdz (d\<lparr>m_dhk_dz := a\<rparr>) = dTdz d"
  "divHeatFlux (d\<lparr>m_dhk_dz := a\<rparr>) = divHeatFlux d"
  "prevSoln (d\<lparr>m_dhk_dz := a\<rparr>) = prevSoln d"
  "T_fixed (d\<lparr>m_dhk_dz := a\<rparr>) = T_fixed d"
  "dhk_dz_upwind (d\<lparr>m_dhk_dz := a\<rparr>) = dhk_dz_upwind d"
  "interior_hi (d\<lparr>m_dhk_dz := a\<rparr>) = interior_hi d"
  by (simp_all add: fun_eq_iff index_def T_def u_def rho_u_def dTdz_def divHeatFlux_def
      prevSoln_def T_fixed_def dhk_dz_upwind_def interior_hi_def z_def)


lemma grad_hk_col:
  fixes d :: "'a stflow_scheme"
  assumes "shaped (m_dhk_dz d) (m_nsp d) m" "j < m"
  shows "\<exists>a. grad_hk x j d = d\<lparr>m_dhk_dz := a\<rparr> \<and> shaped a (m_nsp d) m
           \<and> (\<forall>k<m_nsp d. a2_get a k j = dhk_dz_upwind d x k j)"
proof -
  have body: "(\<lambda>k a. if u d x j > 0
                 then a2_set a k j ((a2_get (m_hk d) k j - a2_get (m_hk d) k (j - 1))
                                      / m_dz d ! (j - 1))
                 else a2_set a k j ((a2_get (m_hk d) k (j + 1) - a2_get (m_hk d) k j)
                                      / m_dz d ! j))
      = (\<lambda>k a. a2_set a k j ((\<lambda>k v. dhk_dz_upwind d x k j) k (a2_get a k j)))"
    by (simp add: fun_eq_iff dhk_dz_upwind_def)
  have inr: "\<forall>k<m_nsp d. nrows (m_dhk_dz d) * j + k < length (adata (m_dhk_dz d))"
    using shaped_index [OF assms(1) _ assms(2)] by simp
  define a' where "a' = for_lt 0 (m_nsp d)
      (\<lambda>k a. a2_set a k j ((\<lambda>k v. dhk_dz_upwind d x k j) k (a2_get a k j))) (m_dhk_dz d)"
  note c = column_update_loop [OF inr, of "\<lambda>k v. dhk_dz_upwind d x k j", folded a'_def]
  have "grad_hk x j d = d\<lparr>m_dhk_dz := a'\<rparr>"
    unfolding grad_hk_def body a'_def ..
  then show ?thesis
    using c assms(1) by (intro exI [of _ a']) (simp add: shaped_def)
qed

lemma energy_sum_closed:
  fixes d :: "'a stflow_scheme"
  shows "energy_sum d j =
     (\<Sum>k<m_nsp d. a2_get (m_wdot d) k j * a2_get (m_hk d) k j
         + 0.5 * (a2_get (m_flux d) k (j - 1) + a2_get (m_flux d) k j)
             * a2_get (m_dhk_dz d) k j / m_wt d ! k)"
proof -
  have "energy_sum d j = for_lt 0 (m_nsp d)
      (\<lambda>k s. s + (a2_get (m_wdot d) k j * a2_get (m_hk d) k j
         + 0.5 * (a2_get (m_flux d) k (j - 1) + a2_get (m_flux d) k j)
             * a2_get (m_dhk_dz d) k j / m_wt d ! k)) 0"
    by (simp add: energy_sum_def Let_def add.assoc)
  then show ?thesis by (simp add: for_lt_sum)
qed

lemma energy_interior_closed:
  fixes d :: "'a stflow_scheme"
  assumes "shaped a (m_nsp d) m" "j < m"
  shows "\<exists>a'. energy_interior x rdt j (d\<lparr>m_dhk_dz := a\<rparr>, rsd, diag) =
           (d\<lparr>m_dhk_dz := a'\<rparr>,
            rsd(index d c_offset_T j :=
                  (if m_do_energy d ! j then energy_balance d x rdt j
                   else T d x j - T_fixed d j)),
            diag(index d c_offset_T j := (if m_do_energy d ! j then 1 else 0)))
         \<and> shaped a' (m_nsp d) m"
proof (cases "m_do_energy d ! j")
  case False
  then show ?thesis using assms(1) by (intro exI [of _ a]) simp
next
  case True
  have "shaped (m_dhk_dz (d\<lparr>m_dhk_dz := a\<rparr>)) (m_nsp (d\<lparr>m_dhk_dz := a\<rparr>)) m"
    using assms(1) by simp
  from grad_hk_col [OF this assms(2), of x]
  obtain a' where a': "grad_hk x j (d\<lparr>m_dhk_dz := a\<rparr>) = d\<lparr>m_dhk_dz := a'\<rparr>"
    "shaped a' (m_nsp d) m" "\<forall>k<m_nsp d. a2_get a' k j = dhk_dz_upwind d x k j"
    by auto
  have s: "energy_sum (d\<lparr>m_dhk_dz := a'\<rparr>) j =
      (\<Sum>k<m_nsp d. a2_get (m_wdot d) k j * a2_get (m_hk d) k j
         + 0.5 * (a2_get (m_flux d) k (j - 1) + a2_get (m_flux d) k j)
             * dhk_dz_upwind d x k j / m_wt d ! k)"
    unfolding energy_sum_closed using a'(3) by simp
  show ?thesis
    using True a'(2)
    by (intro exI [of _ a']) (simp add: a'(1) Let_def s energy_balance_def)
qed

lemma energy_boundary_keeps:
  "fst (energy_boundary x j drd) = fst drd"
  by (cases drd) (simp add: split_def)


lemma evalEnergy_unfold:
  fixes d :: "'a stflow_scheme"
  shows "\<exists>rd'. evalEnergy x rdt jmin jmax (d, rd)
           = for_le (interior_lo jmin) (interior_hi d jmax) (energy_interior x rdt) (d, rd')"
proof -
  define drd1 where "drd1 = (if jmin = 0 then energy_boundary x jmin (d, rd) else (d, rd))"
  define drd2 where
    "drd2 = (if jmax = size_sub (m_points (fst drd1)) 1 then energy_boundary x jmax drd1 else drd1)"
  have f1: "fst drd1 = d" by (simp add: drd1_def energy_boundary_keeps)
  have f2: "fst drd2 = d" by (simp add: drd2_def energy_boundary_keeps f1)
  have "evalEnergy x rdt jmin jmax (d, rd)
      = for_le (interior_lo jmin) (interior_hi (fst drd2) jmax) (energy_interior x rdt) drd2"
    by (simp add: evalEnergy_def Let_def drd1_def drd2_def)
  also have "\<dots> = for_le (interior_lo jmin) (interior_hi d jmax) (energy_interior x rdt)
      (d, snd drd2)"
    using f2 by (cases drd2) simp
  finally show ?thesis by blast
qed

lemma evalEnergy_interior_at:
  fixes d :: "'a stflow_scheme" and x :: "nat \<Rightarrow> real" and rdt :: real and rd :: buffers
  assumes nv: "m_nv d = c_offset_Y + m_nsp d"
    and sh: "shaped (m_dhk_dz d) (m_nsp d) (m_points d - 1)"
    and np: "2 \<le> m_points d"
    and j: "interior_lo jmin \<le> j" "j \<le> interior_hi d jmax"
  defines "r \<equiv> evalEnergy x rdt jmin jmax (d, rd)"
  shows "fst (snd r) (index d c_offset_T j) =
           (if m_do_energy d ! j then energy_balance d x rdt j else T d x j - T_fixed d j)
       \<and> snd (snd r) (index d c_offset_T j) = (if m_do_energy d ! j then 1 else 0)
       \<and> (\<exists>a. fst r = d\<lparr>m_dhk_dz := a\<rparr> \<and> shaped a (m_nsp d) (m_points d - 1))"
proof -
  obtain rd' where ev: "r = for_le (interior_lo jmin) (interior_hi d jmax)
      (energy_interior x rdt) (d, rd')"
    using evalEnergy_unfold [of x rdt jmin jmax d rd] unfolding r_def by blast
  define P :: "'a stflow_scheme \<times> buffers \<Rightarrow> bool" where
    "P = (\<lambda>s. \<exists>a. fst s = d\<lparr>m_dhk_dz := a\<rparr> \<and> shaped a (m_nsp d) (m_points d - 1))"
  define Q :: "'a stflow_scheme \<times> buffers \<Rightarrow> bool" where
    "Q = (\<lambda>s. P s
       \<and> fst (snd s) (index d c_offset_T j) =
           (if m_do_energy d ! j then energy_balance d x rdt j else T d x j - T_fixed d j)
       \<and> snd (snd s) (index d c_offset_T j) = (if m_do_energy d ! j then 1 else 0))"
  have hi: "j' < m_points d - 1" if "j' \<le> interior_hi d jmax" for j'
    using that np by (auto simp: interior_hi_def size_sub_def)
  have tnv: "c_offset_T < m_nv d"
    using nv by (simp add: c_offset_defs)
  have stepP: "P (energy_interior x rdt j' t)"
    if jh: "j' \<le> interior_hi d jmax" and pt: "P t" for j' t
  proof -
    obtain d' rsd diag where t: "t = (d', rsd, diag)" by (cases t)
    obtain a where a: "d' = d\<lparr>m_dhk_dz := a\<rparr>" "shaped a (m_nsp d) (m_points d - 1)"
      using pt unfolding P_def t by auto
    from energy_interior_closed [OF a(2) hi [OF jh], of x rdt rsd diag]
    show ?thesis unfolding t a(1) P_def by auto
  qed
  have "Q r"
    unfolding ev
  proof (rule for_le_at [where j = j and P = P and Q = Q])
    show "interior_lo jmin \<le> j" "j \<le> interior_hi d jmax" by fact+
    have "d = d\<lparr>m_dhk_dz := m_dhk_dz d\<rparr>" by simp
    then show "P (d, rd')" unfolding P_def using sh by (intro exI [of _ "m_dhk_dz d"]) simp
  next
    fix j' t assume "interior_lo jmin \<le> j'" "j' < j" "P t"
    then show "P (energy_interior x rdt j' t)"
      using stepP [of j' t] j(2) by simp
  next
    fix t assume pt: "P t"
    obtain d' rsd diag where t: "t = (d', rsd, diag)" by (cases t)
    obtain a where a: "d' = d\<lparr>m_dhk_dz := a\<rparr>" "shaped a (m_nsp d) (m_points d - 1)"
      using pt unfolding P_def t by auto
    from energy_interior_closed [OF a(2) hi [OF j(2)], of x rdt rsd diag]
    show "Q (energy_interior x rdt j t)"
      unfolding t a(1) Q_def P_def by auto
  next
    fix j' t assume a: "j < j'" "j' \<le> interior_hi d jmax" "Q t"
    obtain d' rsd diag where t: "t = (d', rsd, diag)" by (cases t)
    have pt: "P t" using a(3) by (simp add: Q_def)
    obtain a0 where a0: "d' = d\<lparr>m_dhk_dz := a0\<rparr>" "shaped a0 (m_nsp d) (m_points d - 1)"
      using pt unfolding P_def t by auto
    have ne: "index d c_offset_T j \<noteq> index d c_offset_T j'"
      using index_eq_iff [OF tnv tnv, of j j'] a(1) by simp
    from energy_interior_closed [OF a0(2) hi [OF a(2)], of x rdt rsd diag]
    obtain a1 where e: "energy_interior x rdt j' (d\<lparr>m_dhk_dz := a0\<rparr>, rsd, diag) =
           (d\<lparr>m_dhk_dz := a1\<rparr>,
            rsd(index d c_offset_T j' :=
                  (if m_do_energy d ! j' then energy_balance d x rdt j'
                   else T d x j' - T_fixed d j')),
            diag(index d c_offset_T j' := (if m_do_energy d ! j' then 1 else 0)))"
      by blast
    show "Q (energy_interior x rdt j' t)"
      using stepP [OF a(2) pt] a(3) ne unfolding Q_def t a0(1) e by simp
  qed
  then show ?thesis by (simp add: Q_def P_def)
qed

subsection \<open>Switching the energy equation on\<close>

lemma set_energy_flag_fields:
  "m_points (snd (set_energy_flag b i cd)) = m_points (snd cd)"
  "m_do_energy (snd (set_energy_flag b i cd)) = (m_do_energy (snd cd))[i := b]"
  "fst (set_energy_flag b i cd) = (m_do_energy (snd cd) ! i \<noteq> b \<or> fst cd)"
  by (simp_all add: set_energy_flag_def Let_def)

lemma solve_all_changed:
  fixes d :: "'a stflow_scheme"
  assumes "i < m_points d" "\<not> m_do_energy d ! i"
  shows "fst (for_lt 0 (m_points d) (set_energy_flag True) (False, d))"
proof (rule for_lt_at [where j = i
      and P = "\<lambda>s. \<forall>i'. i \<le> i' \<longrightarrow> m_do_energy (snd s) ! i' = m_do_energy d ! i'"
      and Q = "\<lambda>s. fst s"])
  show "0 \<le> i" "i < m_points d" using assms by simp_all
  show "\<forall>i'. i \<le> i' \<longrightarrow> m_do_energy (snd (False, d)) ! i' = m_do_energy d ! i'" by simp
next
  fix j' and t :: "bool \<times> 'a stflow_scheme"
  assume "0 \<le> j'" "j' < i" "\<forall>i'. i \<le> i' \<longrightarrow> m_do_energy (snd t) ! i' = m_do_energy d ! i'"
  then show "\<forall>i'. i \<le> i' \<longrightarrow> m_do_energy (snd (set_energy_flag True j' t)) ! i' = m_do_energy d ! i'"
    by (simp add: set_energy_flag_fields)
next
  fix t :: "bool \<times> 'a stflow_scheme"
  assume "\<forall>i'. i \<le> i' \<longrightarrow> m_do_energy (snd t) ! i' = m_do_energy d ! i'"
  then show "fst (set_energy_flag True i t)"
    using assms(2) by (simp add: set_energy_flag_fields)
next
  fix j' and t :: "bool \<times> 'a stflow_scheme"
  assume "fst t"
  then show "fst (set_energy_flag True j' t)"
    by (simp add: set_energy_flag_fields)
qed

lemma solveEnergyEqn_signal:
  fixes d :: "'a stflow_scheme"
  shows "\<not> m_do_energy d ! j \<Longrightarrow> jac_update_needed (solveEnergyEqn (Some j) d)"
    and "i < m_points d \<Longrightarrow> \<not> m_do_energy d ! i \<Longrightarrow> jac_update_needed (solveEnergyEqn None d)"
proof -
  show "\<not> m_do_energy d ! j \<Longrightarrow> jac_update_needed (solveEnergyEqn (Some j) d)"
    by (simp add: solveEnergyEqn_def Let_def set_energy_flag_fields needJacUpdate_def)
  show "i < m_points d \<Longrightarrow> \<not> m_do_energy d ! i \<Longrightarrow> jac_update_needed (solveEnergyEqn None d)"
    using solve_all_changed [of i d]
    by (simp add: solveEnergyEqn_def Let_def needJacUpdate_def)
qed

lemma solveEnergyEqn_point_flag:
  fixes d :: "'a stflow_scheme"
  shows "m_do_energy (solveEnergyEqn (Some j) d) = (m_do_energy d)[j := True]"
  by (simp add: solveEnergyEqn_def Let_def set_energy_flag_fields needJacUpdate_def
      setActive_def)


lemma solveEnergyEqn_point_fields:
  fixes d :: "'a stflow_scheme"
  shows "m_nv (solveEnergyEqn (Some j) d) = m_nv d"
    "m_nsp (solveEnergyEqn (Some j) d) = m_nsp d"
    "m_points (solveEnergyEqn (Some j) d) = m_points d"
    "m_dhk_dz (solveEnergyEqn (Some j) d) = m_dhk_dz d"
  by (simp_all add: solveEnergyEqn_def Let_def set_energy_flag_def needJacUpdate_def
      setActive_def)

text \<open>
  C4. For every interior point \<open>j\<close> of the window: with the energy equation disabled at
  \<open>j\<close>, \<open>evalEnergy\<close> writes the residual \<open>T(j) - T_fixed(j)\<close> and the classification 0;
  with it enabled, it writes the differential energy balance and the classification 1.
  If the flag of \<open>j\<close> is off, \<open>solveEnergyEqn\<close> for the point \<open>j\<close>, and for all points,
  raises the signal of \<open>needJacUpdate\<close>; after the call for \<open>j\<close> the flag is on and the
  evaluation classifies the component at \<open>j\<close> as differential.
\<close>

theorem C4_energy_switch:
  fixes d :: "'a stflow_scheme"
  assumes sz: "sized d" and j: "1 \<le> j" "j + 2 \<le> m_points d" "jmin \<le> j" "j \<le> jmax"
  shows "(\<not> m_do_energy d ! j \<longrightarrow>
           fst (snd (evalEnergy x rdt jmin jmax (d, rd))) (index d c_offset_T j)
             = T d x j - T_fixed d j
         \<and> snd (snd (evalEnergy x rdt jmin jmax (d, rd))) (index d c_offset_T j) = 0)
       \<and> (m_do_energy d ! j \<longrightarrow>
           fst (snd (evalEnergy x rdt jmin jmax (d, rd))) (index d c_offset_T j)
             = energy_balance d x rdt j
         \<and> snd (snd (evalEnergy x rdt jmin jmax (d, rd))) (index d c_offset_T j) = 1)
       \<and> (\<not> m_do_energy d ! j \<longrightarrow>
           jac_update_needed (solveEnergyEqn (Some j) d)
         \<and> jac_update_needed (solveEnergyEqn None d)
         \<and> m_do_energy (solveEnergyEqn (Some j) d) ! j
         \<and> snd (snd (evalEnergy x rdt jmin jmax (solveEnergyEqn (Some j) d, rd)))
               (index d c_offset_T j) = 1)"
proof -
  have nv: "m_nv d = c_offset_Y + m_nsp d"
    and sh: "shaped (m_dhk_dz d) (m_nsp d) (m_points d - 1)"
    and len: "length (m_do_energy d) = m_points d"
    using sz by (simp_all add: sized_def)
  have np: "2 \<le> m_points d" using j by simp
  have lo: "interior_lo jmin \<le> j" using j by (simp add: interior_lo_def)
  have hi: "interior_hi d jmax \<ge> j" using j by (simp add: interior_hi_def size_sub_def)
  note e = evalEnergy_interior_at [OF nv sh np lo hi, of x rdt rd]
  define d1 where "d1 = solveEnergyEqn (Some j) d"
  have d1: "m_nv d1 = c_offset_Y + m_nsp d1"
    "shaped (m_dhk_dz d1) (m_nsp d1) (m_points d1 - 1)" "2 \<le> m_points d1"
    "interior_hi d1 jmax \<ge> j" "index d1 = index d"
    using nv sh np hi
    by (simp_all add: d1_def solveEnergyEqn_point_fields interior_hi_def index_def fun_eq_iff)
  have on: "m_do_energy d1 ! j"
    using len j by (simp add: d1_def solveEnergyEqn_point_flag)
  note e1 = evalEnergy_interior_at [OF d1(1,2,3) lo d1(4), of x rdt rd]
  have "snd (snd (evalEnergy x rdt jmin jmax (d1, rd))) (index d c_offset_T j) = 1"
    using e1 on d1(5) by simp
  moreover have "j < m_points d" using j by simp
  ultimately show ?thesis
    using e on solveEnergyEqn_signal(1) [where d = d and j = j]
      solveEnergyEqn_signal(2) [where d = d and i = j]
    by (simp add: d1_def)
qed

lemma energy_balance_flow3:
  "energy_balance (flow3\<lparr>m_do_energy := [False, True, False]\<rparr>) state3 1 1 = - 300"
  by (simp add: energy_balance_def flow3_basic sum_less_2 rho_u_def dTdz_def divHeatFlux_def
      T_def u_def index_def z_def prevSoln_def dhk_dz_upwind_def a2_get_def state3_def
      c_offset_defs Let_def)
    (simp add: flow3_def zeros2_def)

theorem C4_energy_switch_witness:
  "sized flow3 \<and> (1::nat) \<le> 1 \<and> 1 + 2 \<le> m_points flow3 \<and> (0::nat) \<le> 1 \<and> (1::nat) \<le> 2
   \<and> \<not> m_do_energy flow3 ! 1
   \<and> fst (snd (evalEnergy state3 1 0 2 (flow3, \<lambda>i. 0, \<lambda>i. 1))) (index flow3 c_offset_T 1) = - 50
   \<and> snd (snd (evalEnergy state3 1 0 2 (flow3, \<lambda>i. 0, \<lambda>i. 1))) (index flow3 c_offset_T 1) = 0
   \<and> jac_update_needed (solveEnergyEqn (Some 1) flow3)
   \<and> jac_update_needed (solveEnergyEqn None flow3)
   \<and> sized (flow3\<lparr>m_do_energy := [False, True, False]\<rparr>)
   \<and> m_do_energy (flow3\<lparr>m_do_energy := [False, True, False]\<rparr>) ! 1
   \<and> fst (snd (evalEnergy state3 1 0 2
         (flow3\<lparr>m_do_energy := [False, True, False]\<rparr>, \<lambda>i. 0, \<lambda>i. 0)))
         (index flow3 c_offset_T 1) = - 300
   \<and> snd (snd (evalEnergy state3 1 0 2
         (flow3\<lparr>m_do_energy := [False, True, False]\<rparr>, \<lambda>i. 0, \<lambda>i. 0)))
         (index flow3 c_offset_T 1) = 1"
proof -
  define d1 where "d1 = flow3\<lparr>m_do_energy := [False, True, False]\<rparr>"
  have s1: "sized d1"
    using flow3_sized by (simp add: sized_def d1_def flow3_def)
  have j0: "(1::nat) \<le> 1" "1 + 2 \<le> m_points flow3" "(0::nat) \<le> 1" "(1::nat) \<le> 2"
    by (simp_all add: flow3_basic)
  have j1: "(1::nat) \<le> 1" "1 + 2 \<le> m_points d1" "(0::nat) \<le> 1" "(1::nat) \<le> 2"
    by (simp_all add: flow3_basic d1_def)
  have off: "\<not> m_do_energy flow3 ! 1" and on: "m_do_energy d1 ! 1"
    by (simp_all add: flow3_def d1_def)
  have v: "T flow3 state3 1 - T_fixed flow3 1 = - 50" "index d1 = index flow3"
    by (simp_all add: T_def T_fixed_def index_def state3_def c_offset_defs fun_eq_iff d1_def)
      (simp_all add: flow3_def)
  note a = C4_energy_switch [OF flow3_sized j0, of state3 1 "(\<lambda>i. 0, \<lambda>i. 1)"]
  note b = C4_energy_switch [OF s1 j1, of state3 1 "(\<lambda>i. 0, \<lambda>i. 0)"]
  show ?thesis
    using a b off on v flow3_sized s1 j0 energy_balance_flow3
    unfolding d1_def by simp
qed

subsection \<open>Loops that write disjoint parts of a vector\<close>







subsection \<open>The thermodynamic refresh\<close>

lemma setGas_cache_update [simp]:
  "setGas (d\<lparr>m_rho := a1\<rparr>) = setGas d"
  "setGas (d\<lparr>m_wtm := a2\<rparr>) = setGas d"
  "setGas (d\<lparr>m_cp := a3\<rparr>) = setGas d"
  "setGas (d\<lparr>m_hk := a4\<rparr>) = setGas d"
  "setGas (d\<lparr>m_wdot := a5\<rparr>) = setGas d"
  by (simp_all add: fun_eq_iff setGas_def T_def index_def)



subsection \<open>The transport refresh\<close>





lemma setGasAtMidpoint_cache_update [simp]:
  "setGasAtMidpoint (d\<lparr>m_visc := a1\<rparr>) = setGasAtMidpoint d"
  "setGasAtMidpoint (d\<lparr>m_diff := a2\<rparr>) = setGasAtMidpoint d"
  "setGasAtMidpoint (d\<lparr>m_tcon := a3\<rparr>) = setGasAtMidpoint d"
  "setGasAtMidpoint (d\<lparr>m_multidiff := a4\<rparr>) = setGasAtMidpoint d"
  "setGasAtMidpoint (d\<lparr>m_dthermal := a5\<rparr>) = setGasAtMidpoint d"
  by (simp_all add: fun_eq_iff setGasAtMidpoint_def T_def index_def)





subsection \<open>Loops over the columns of an array\<close>




subsection \<open>Diffusive fluxes in closed form\<close>





lemma updateDiffFluxes_frame:
  "updateDiffFluxes x j0 j1 d = d\<lparr>m_flux := m_flux (updateDiffFluxes x j0 j1 d)\<rparr>"
  by (simp add: updateDiffFluxes_def Let_def)


subsection \<open>A full refresh does not depend on the caches\<close>
























































subsection \<open>Full evaluations and the cached values\<close>



















end
